theory Spec2Isabelle
  imports Complex_Main "HOL-Library.Word" "HOL-Library.Multiset" "HOL-Library.Log_Nat"
begin

section \<open>Constants (infrastructure/constants)\<close>

definition BOARD_WIDTH :: int where "BOARD_WIDTH = 12"
definition BOARD_HEIGHT :: int where "BOARD_HEIGHT = 20"

text \<open>The enum \<open>PieceType\<close>; its members are the one-letter strings \<open>'I'\<close> ... \<open>'L'\<close>.\<close>

datatype PieceType = I_t | O_t | T_t | S_t | Z_t | J_t | L_t

definition type_char :: "PieceType \<Rightarrow> char" where
  "type_char t = (case t of I_t \<Rightarrow> CHR ''I'' | O_t \<Rightarrow> CHR ''O'' | T_t \<Rightarrow> CHR ''T''
     | S_t \<Rightarrow> CHR ''S'' | Z_t \<Rightarrow> CHR ''Z'' | J_t \<Rightarrow> CHR ''J'' | L_t \<Rightarrow> CHR ''L'')"

text \<open>\<open>Object.values(PieceType)\<close>: the members in declaration order.\<close>

definition PieceType_values :: "PieceType list" where
  "PieceType_values = [I_t, O_t, T_t, S_t, Z_t, J_t, L_t]"

type_synonym shape = "int list list"

definition PIECE_SHAPES :: "PieceType \<Rightarrow> shape list" where
  "PIECE_SHAPES t = (case t of
     I_t \<Rightarrow> [[[0,0,0,0],[1,1,1,1],[0,0,0,0],[0,0,0,0]],
             [[0,0,1,0],[0,0,1,0],[0,0,1,0],[0,0,1,0]],
             [[0,0,0,0],[0,0,0,0],[1,1,1,1],[0,0,0,0]],
             [[0,1,0,0],[0,1,0,0],[0,1,0,0],[0,1,0,0]]]
   | O_t \<Rightarrow> [[[0,0,0,0],[0,1,1,0],[0,1,1,0],[0,0,0,0]],
             [[0,0,0,0],[0,1,1,0],[0,1,1,0],[0,0,0,0]],
             [[0,0,0,0],[0,1,1,0],[0,1,1,0],[0,0,0,0]],
             [[0,0,0,0],[0,1,1,0],[0,1,1,0],[0,0,0,0]]]
   | T_t \<Rightarrow> [[[0,0,0,0],[0,1,0,0],[1,1,1,0],[0,0,0,0]],
             [[0,0,0,0],[0,1,0,0],[0,1,1,0],[0,1,0,0]],
             [[0,0,0,0],[0,0,0,0],[1,1,1,0],[0,1,0,0]],
             [[0,0,0,0],[0,1,0,0],[1,1,0,0],[0,1,0,0]]]
   | S_t \<Rightarrow> [[[0,0,0,0],[0,1,1,0],[1,1,0,0],[0,0,0,0]],
             [[0,0,0,0],[0,1,0,0],[0,1,1,0],[0,0,1,0]],
             [[0,0,0,0],[0,0,0,0],[0,1,1,0],[1,1,0,0]],
             [[0,0,0,0],[1,0,0,0],[1,1,0,0],[0,1,0,0]]]
   | Z_t \<Rightarrow> [[[0,0,0,0],[1,1,0,0],[0,1,1,0],[0,0,0,0]],
             [[0,0,0,0],[0,0,1,0],[0,1,1,0],[0,1,0,0]],
             [[0,0,0,0],[0,0,0,0],[1,1,0,0],[0,1,1,0]],
             [[0,0,0,0],[0,1,0,0],[1,1,0,0],[1,0,0,0]]]
   | J_t \<Rightarrow> [[[0,0,0,0],[1,0,0,0],[1,1,1,0],[0,0,0,0]],
             [[0,0,0,0],[0,1,1,0],[0,1,0,0],[0,1,0,0]],
             [[0,0,0,0],[0,0,0,0],[1,1,1,0],[0,0,1,0]],
             [[0,0,0,0],[0,1,0,0],[0,1,0,0],[1,1,0,0]]]
   | L_t \<Rightarrow> [[[0,0,0,0],[0,0,1,0],[1,1,1,0],[0,0,0,0]],
             [[0,0,0,0],[0,1,0,0],[0,1,0,0],[0,1,1,0]],
             [[0,0,0,0],[0,0,0,0],[1,1,1,0],[1,0,0,0]],
             [[0,0,0,0],[1,1,0,0],[0,1,0,0],[0,1,0,0]]])"

definition SPAWN_X :: int where "SPAWN_X = BOARD_WIDTH div 2 - 2"
definition SPAWN_Y :: int where "SPAWN_Y = 0"

text \<open>\<open>SCORE_VALUES\<close> is a record with the keys 0..4; any other key reads \<open>undefined\<close>.\<close>

definition SCORE_VALUES :: "int \<rightharpoonup> int" where
  "SCORE_VALUES = [0 \<mapsto> 0, 1 \<mapsto> 100, 2 \<mapsto> 300, 3 \<mapsto> 500, 4 \<mapsto> 800]"

definition SOFT_DROP_SCORE :: int where "SOFT_DROP_SCORE = 1"
definition HARD_DROP_SCORE :: int where "HARD_DROP_SCORE = 2"
definition LINES_PER_LEVEL :: int where "LINES_PER_LEVEL = 10"
definition INITIAL_DROP_INTERVAL :: int where "INITIAL_DROP_INTERVAL = 1000"
definition MIN_DROP_INTERVAL :: int where "MIN_DROP_INTERVAL = 100"
definition DROP_INTERVAL_DECREASE :: int where "DROP_INTERVAL_DECREASE = 50"

section \<open>Piece (infrastructure/Piece.ts)\<close>

text \<open>
  A piece is its kind and its rotation index. The index is written only by the
  constructor (0), by \<open>clone\<close> (a copy) and by \<open>rotate\<close> (\<open>(r + 1) % 4\<close>, \<open>(r + 3) % 4\<close>),
  so it ranges over 0..3: it is a 2-bit word, on which \<open>+\<close> is addition modulo 4.
  The field \<open>shapes\<close> is \<open>PIECE_SHAPES[type]\<close>, a function of the kind.
\<close>

record Piece =
  ptype :: PieceType
  rotation :: "2 word"

datatype direction = clockwise | counterclockwise

definition new_Piece :: "PieceType \<Rightarrow> Piece" where
  "new_Piece t = \<lparr>ptype = t, rotation = 0\<rparr>"

definition getShape :: "Piece \<Rightarrow> shape" where
  "getShape p = PIECE_SHAPES (ptype p) ! unat (rotation p)"

definition rotate_piece :: "direction \<Rightarrow> Piece \<Rightarrow> Piece" where
  "rotate_piece d p =
     (if d = clockwise then p\<lparr>rotation := rotation p + 1\<rparr>
      else p\<lparr>rotation := rotation p + 3\<rparr>)"

definition clone_piece :: "Piece \<Rightarrow> Piece" where
  "clone_piece p = (new_Piece (ptype p))\<lparr>rotation := rotation p\<rparr>"

section \<open>Board (infrastructure/Board.ts)\<close>

text \<open>The grid is a \<open>Uint8Array\<close> of length \<open>width * height\<close>, row after row.\<close>

record Board =
  grid :: "8 word list"
  width :: int
  height :: int

definition new_Board :: "int \<Rightarrow> int \<Rightarrow> Board" where
  "new_Board w h = \<lparr>grid = replicate (nat (w * h)) 0, width = w, height = h\<rparr>"

definition getIndex :: "Board \<Rightarrow> int \<Rightarrow> int \<Rightarrow> int" where
  "getIndex b x y = y * width b + x"

definition getCell :: "Board \<Rightarrow> int \<Rightarrow> int \<Rightarrow> int" where
  "getCell b x y =
     (if x < 0 \<or> x \<ge> width b \<or> y < 0 \<or> y \<ge> height b then 0
      else uint (grid b ! nat (getIndex b x y)))"

text \<open>A store into a \<open>Uint8Array\<close> keeps the value modulo 256.\<close>

definition setCell :: "Board \<Rightarrow> int \<Rightarrow> int \<Rightarrow> int \<Rightarrow> Board" where
  "setCell b x y v =
     (if x \<ge> 0 \<and> x < width b \<and> y \<ge> 0 \<and> y < height b
      then b\<lparr>grid := (grid b)[nat (getIndex b x y) := word_of_int v]\<rparr>
      else b)"

text \<open>
  \<open>isValidPosition\<close>: the inner loop over the columns of one shape row, from column
  \<open>col\<close> on, and the outer loop over the rows, from row \<open>row\<close> on. A \<open>return false\<close>
  ends both.
\<close>

fun isValid_cols :: "Board \<Rightarrow> int \<Rightarrow> int \<Rightarrow> int \<Rightarrow> int list \<Rightarrow> bool" where
  "isValid_cols b x boardY col [] = True"
| "isValid_cols b x boardY col (c # cs) =
     (if c \<noteq> 0 then
        (let boardX = x + col in
         if boardX < 0 \<or> boardX \<ge> width b \<or> boardY \<ge> height b then False
         else if boardY \<ge> 0 \<and> getCell b boardX boardY \<noteq> 0 then False
         else isValid_cols b x boardY (col + 1) cs)
      else isValid_cols b x boardY (col + 1) cs)"

fun isValid_rows :: "Board \<Rightarrow> int \<Rightarrow> int \<Rightarrow> int \<Rightarrow> shape \<Rightarrow> bool" where
  "isValid_rows b x y row [] = True"
| "isValid_rows b x y row (r # rs) =
     (if isValid_cols b x (y + row) 0 r then isValid_rows b x y (row + 1) rs else False)"

definition isValidPosition :: "Board \<Rightarrow> Piece \<Rightarrow> int \<Rightarrow> int \<Rightarrow> bool" where
  "isValidPosition b piece x y = isValid_rows b x y 0 (getShape piece)"

text \<open>\<open>placePiece\<close>: the same two loops, writing \<open>piece.type.charCodeAt(0)\<close>.\<close>

definition charCode :: "PieceType \<Rightarrow> int" where
  "charCode t = of_char (type_char t)"

fun place_cols :: "Board \<Rightarrow> int \<Rightarrow> int \<Rightarrow> int \<Rightarrow> int \<Rightarrow> int list \<Rightarrow> Board" where
  "place_cols b v x boardY col [] = b"
| "place_cols b v x boardY col (c # cs) =
     (if c \<noteq> 0 then
        (let boardX = x + col in
         if boardY \<ge> 0 then place_cols (setCell b boardX boardY v) v x boardY (col + 1) cs
         else place_cols b v x boardY (col + 1) cs)
      else place_cols b v x boardY (col + 1) cs)"

fun place_rows :: "Board \<Rightarrow> int \<Rightarrow> int \<Rightarrow> int \<Rightarrow> int \<Rightarrow> shape \<Rightarrow> Board" where
  "place_rows b v x y row [] = b"
| "place_rows b v x y row (r # rs) =
     place_rows (place_cols b v x (y + row) 0 r) v x y (row + 1) rs"

definition placePiece :: "Board \<Rightarrow> Piece \<Rightarrow> int \<Rightarrow> int \<Rightarrow> Board" where
  "placePiece b piece x y = place_rows b (charCode (ptype piece)) x y 0 (getShape piece)"

text \<open>
  \<open>clearLines\<close>. First loop: the rows that are filled, in increasing order
  (\<open>isFilled_from b y x\<close> is the scan of row \<open>y\<close> from column \<open>x\<close>, with its
  \<open>break\<close>). Second loop: for each recorded row index, from the largest down, move
  the rows above down by one and zero row 0.
\<close>

function isFilled_from :: "Board \<Rightarrow> int \<Rightarrow> int \<Rightarrow> bool" where
  "isFilled_from b y x =
     (if x < width b then (if getCell b x y = 0 then False else isFilled_from b y (x + 1))
      else True)"
  by pat_completeness auto
termination
  by (relation "measure (\<lambda>(b, y, x). nat (width b - x))") auto

function linesToClear_from :: "Board \<Rightarrow> int \<Rightarrow> int list" where
  "linesToClear_from b y =
     (if y < height b
      then (if isFilled_from b y 0 then y # linesToClear_from b (y + 1)
            else linesToClear_from b (y + 1))
      else [])"
  by pat_completeness auto
termination
  by (relation "measure (\<lambda>(b, y). nat (height b - y))") auto

function copyRow_from :: "Board \<Rightarrow> int \<Rightarrow> int \<Rightarrow> Board" where
  "copyRow_from b y x =
     (if x < width b then copyRow_from (setCell b x y (getCell b x (y - 1))) y (x + 1)
      else b)"
  by pat_completeness auto
termination
  by (relation "measure (\<lambda>(b, y, x). nat (width b - x))") (auto simp: setCell_def)

function shiftDown_from :: "Board \<Rightarrow> int \<Rightarrow> Board" where
  "shiftDown_from b y =
     (if y > 0 then shiftDown_from (copyRow_from b y 0) (y - 1) else b)"
  by pat_completeness auto
termination
  by (relation "measure (\<lambda>(b, y). nat y)") auto

function clearTop_from :: "Board \<Rightarrow> int \<Rightarrow> Board" where
  "clearTop_from b x =
     (if x < width b then clearTop_from (setCell b x 0 0) (x + 1) else b)"
  by pat_completeness auto
termination
  by (relation "measure (\<lambda>(b, x). nat (width b - x))") (auto simp: setCell_def)

fun clear_each :: "Board \<Rightarrow> int \<Rightarrow> int list \<Rightarrow> int \<times> Board" where
  "clear_each b linesCleared [] = (linesCleared, b)"
| "clear_each b linesCleared (lineY # rest) =
     clear_each (clearTop_from (shiftDown_from b lineY) 0) (linesCleared + 1) rest"

definition clearLines :: "Board \<Rightarrow> int \<times> Board" where
  "clearLines b = clear_each b 0 (rev (linesToClear_from b 0))"

definition clear_board :: "Board \<Rightarrow> Board" where
  "clear_board b = b\<lparr>grid := map (\<lambda>_. 0) (grid b)\<rparr>"

declare isFilled_from.simps [simp del] linesToClear_from.simps [simp del]
  copyRow_from.simps [simp del] shiftDown_from.simps [simp del]
  clearTop_from.simps [simp del]


text \<open>
  The loop \<open>while (isValidPosition(piece, x, y + distance + 1)) distance++\<close> ends because
  every shape of the catalogue has a filled cell, and a position with a filled cell at
  or below the bottom row is rejected.
\<close>

function getHardDropDistance_from :: "Board \<Rightarrow> Piece \<Rightarrow> int \<Rightarrow> int \<Rightarrow> int \<Rightarrow> int" where
  "getHardDropDistance_from b piece x y distance =
     (if isValidPosition b piece x (y + distance + 1)
      then getHardDropDistance_from b piece x y (distance + 1)
      else distance)"
  by pat_completeness auto
termination
proof (relation "measure (\<lambda>(b, piece, x, y, distance). nat (height b - (y + distance)))")
  show "wf (measure (\<lambda>(b, piece, x, y, distance). nat (height b - (y + distance))))"
    by simp
next
  fix b :: Board and piece :: Piece and x y distance :: int
  assume valid: "isValidPosition b piece x (y + distance + 1)"
  have cols: "isValid_cols b x boardY col cs \<Longrightarrow> \<exists>c\<in>set cs. c \<noteq> 0 \<Longrightarrow> boardY < height b"
    for boardY col cs
    by (induction cs arbitrary: col) (auto simp: Let_def split: if_splits)
  have rows: "isValid_rows b x y' row rs \<Longrightarrow> \<exists>r\<in>set rs. \<exists>c\<in>set r. c \<noteq> 0 \<Longrightarrow> 0 \<le> row
      \<Longrightarrow> y' < height b" for y' row rs
  proof (induction rs arbitrary: row)
    case Nil
    then show ?case by simp
  next
    case (Cons r rs)
    show ?case
    proof (cases "\<exists>c\<in>set r. c \<noteq> 0")
      case True
      from Cons.prems(1) have "isValid_cols b x (y' + row) 0 r"
        by (simp split: if_splits)
      from cols [OF this True] Cons.prems(3) show ?thesis by simp
    next
      case False
      with Cons.prems(2) have ex: "\<exists>r\<in>set rs. \<exists>c\<in>set r. c \<noteq> 0" by auto
      from Cons.prems(1) have "isValid_rows b x y' (row + 1) rs"
        by (simp split: if_splits)
      from Cons.IH [OF this ex] Cons.prems(3) show ?thesis by simp
    qed
  qed
  have "unat (rotation piece) < 2 ^ LENGTH(2)" by (rule unsigned_less)
  then have "unat (rotation piece) = 0 \<or> unat (rotation piece) = 1 \<or>
      unat (rotation piece) = 2 \<or> unat (rotation piece) = 3"
    by (simp add: less_Suc_eq numeral_eq_Suc)
  then have filled: "\<exists>r\<in>set (getShape piece). \<exists>c\<in>set r. c \<noteq> 0"
    by (cases "ptype piece") (auto simp: getShape_def PIECE_SHAPES_def)
  from valid have "isValid_rows b x (y + distance + 1) 0 (getShape piece)"
    by (simp add: isValidPosition_def)
  from rows [OF this filled] have "y + distance + 1 < height b" by simp
  then show "((b, piece, x, y, distance + 1), (b, piece, x, y, distance))
      \<in> measure (\<lambda>(b, piece, x, y, distance). nat (height b - (y + distance)))"
    by simp
qed

declare getHardDropDistance_from.simps [simp del]

definition getHardDropDistance :: "Board \<Rightarrow> Piece \<Rightarrow> int \<Rightarrow> int \<Rightarrow> int" where
  "getHardDropDistance b piece x y = getHardDropDistance_from b piece x y 0"


section \<open>PieceGenerator (infrastructure/PieceGenerator.ts)\<close>

text \<open>
  \<open>Math.random()\<close> is the generator's only input from outside: its successive results
  are the values \<open>rng 0\<close>, \<open>rng 1\<close>, ... of a sequence, each meant to lie in [0, 1), and
  \<open>rng_calls\<close> counts the calls made so far.
\<close>

record PieceGenerator =
  bag :: "PieceType list"
  preview :: "Piece list"
  previewCount :: nat
  rng :: "nat \<Rightarrow> rat"
  rng_calls :: nat

definition random :: "PieceGenerator \<Rightarrow> rat \<times> PieceGenerator" where
  "random g = (rng g (rng_calls g), g\<lparr>rng_calls := rng_calls g + 1\<rparr>)"

text \<open>
  \<open>shuffleArray\<close>: the loop \<open>for (i = length - 1; i > 0; i--)\<close>, with
  \<open>j = Math.floor(Math.random() * (i + 1))\<close> and the swap of the entries \<open>i\<close> and \<open>j\<close>.
\<close>

fun shuffle_loop :: "nat \<Rightarrow> 'a list \<Rightarrow> PieceGenerator \<Rightarrow> 'a list \<times> PieceGenerator" where
  "shuffle_loop 0 shuffled g = (shuffled, g)"
| "shuffle_loop (Suc n) shuffled g =
     (let i = Suc n;
          (r, g') = random g;
          j = nat \<lfloor>r * of_nat (i + 1)\<rfloor>
      in shuffle_loop n (shuffled[i := shuffled ! j, j := shuffled ! i]) g')"

definition shuffleArray :: "'a list \<Rightarrow> PieceGenerator \<Rightarrow> 'a list \<times> PieceGenerator" where
  "shuffleArray array g = shuffle_loop (length array - 1) array g"

definition refillBag :: "PieceGenerator \<Rightarrow> PieceGenerator" where
  "refillBag g = (let (shuffled, g') = shuffleArray PieceType_values g in g'\<lparr>bag := shuffled\<rparr>)"

text \<open>\<open>generatePiece\<close>: \<open>bag.pop()\<close> takes the last entry (the bag holds 7 after a refill).\<close>

definition generatePiece :: "PieceGenerator \<Rightarrow> Piece \<times> PieceGenerator" where
  "generatePiece g =
     (let g1 = (if length (bag g) = 0 then refillBag g else g)
      in (new_Piece (last (bag g1)), g1\<lparr>bag := butlast (bag g1)\<rparr>))"

text \<open>The loop that fills the preview queue, in the constructor and in \<open>reset\<close>.\<close>

fun fill_preview :: "nat \<Rightarrow> PieceGenerator \<Rightarrow> PieceGenerator" where
  "fill_preview 0 g = g"
| "fill_preview (Suc n) g =
     (let (p, g') = generatePiece g in fill_preview n (g'\<lparr>preview := preview g' @ [p]\<rparr>))"

definition new_PieceGenerator :: "nat \<Rightarrow> (nat \<Rightarrow> rat) \<Rightarrow> nat \<Rightarrow> PieceGenerator" where
  "new_PieceGenerator n r calls =
     fill_preview n \<lparr>bag = [], preview = [], previewCount = n, rng = r, rng_calls = calls\<rparr>"

definition reset :: "PieceGenerator \<Rightarrow> PieceGenerator" where
  "reset g = fill_preview (previewCount g) (g\<lparr>bag := [], preview := []\<rparr>)"

text \<open>
  \<open>next\<close>: \<open>preview.shift()!\<close> and a fresh piece pushed at the end. On an empty queue
  (a generator made with \<open>previewCount = 0\<close>) \<open>shift\<close> yields \<open>undefined\<close>, against the
  declared result type: the model reports that as the fault \<open>UndefinedPiece\<close>.
\<close>

datatype fault = UndefinedPiece

definition next_piece :: "PieceGenerator \<Rightarrow> fault + (Piece \<times> PieceGenerator)" where
  "next_piece g =
     (case preview g of
        [] \<Rightarrow> Inl UndefinedPiece
      | piece # rest \<Rightarrow>
          (let (p, g') = generatePiece (g\<lparr>preview := rest\<rparr>)
           in Inr (piece, g'\<lparr>preview := preview g' @ [p]\<rparr>)))"

definition getPreview :: "PieceGenerator \<Rightarrow> Piece list" where
  "getPreview g = preview g"

section \<open>Domain types (domain/types)\<close>

datatype GameStatus = MENU | PLAYING | PAUSED | GAME_OVER

datatype GameEvent = GAME_START | GAME_PAUSE | GAME_RESUME | GAME_OVER_EVENT | PIECE_SPAWN
  | PIECE_MOVE | PIECE_ROTATE | PIECE_LOCK | LINE_CLEARED | LEVEL_UP | SCORE_UPDATE | HOLD_PIECE

text \<open>
  A JavaScript number (an IEEE 754 double) as far as the score needs it: \<open>Num n\<close> is
  the double whose value is the integer \<open>n\<close>, next to \<open>NaN\<close> (as in the product
  \<open>undefined * level\<close> when \<open>SCORE_VALUES\<close> has no entry) and the two infinities. A
  double holds every integer up to 2^53 in magnitude and, beyond, the integers with a
  53-bit significand. Sums and products of doubles are the exact result rounded to the
  nearest double, ties to the even significand, and infinite from 2^1024 on:
  \<open>round_double\<close>. (\<open>bitlen a\<close> is the number of binary digits of \<open>a\<close>; the model
  does not tell the double -0 from 0.)
\<close>

datatype number = Num int | NaN | PosInfinity | NegInfinity

definition round_double :: "int \<Rightarrow> number" where
  "round_double n =
     (let a = \<bar>n\<bar> in
      if a \<le> 2 ^ 53 then Num n
      else
        (let e = nat (bitlen a - 53);
             q = a div 2 ^ e;
             r = a mod 2 ^ e;
             q' = (if 2 * r > 2 ^ e \<or> (2 * r = 2 ^ e \<and> odd q) then q + 1 else q);
             m = q' * 2 ^ e
         in if bitlen m > 1024 then (if n > 0 then PosInfinity else NegInfinity)
            else Num (if n > 0 then m else - m)))"

fun num_add :: "number \<Rightarrow> number \<Rightarrow> number" where
  "num_add NaN y = NaN"
| "num_add x NaN = NaN"
| "num_add (Num a) (Num b) = round_double (a + b)"
| "num_add PosInfinity NegInfinity = NaN"
| "num_add NegInfinity PosInfinity = NaN"
| "num_add PosInfinity y = PosInfinity"
| "num_add x PosInfinity = PosInfinity"
| "num_add NegInfinity y = NegInfinity"
| "num_add x NegInfinity = NegInfinity"

text \<open>The sign of a number other than \<open>NaN\<close>, for the products with an infinity.\<close>

fun num_sgn :: "number \<Rightarrow> int" where
  "num_sgn (Num a) = sgn a"
| "num_sgn PosInfinity = 1"
| "num_sgn NegInfinity = - 1"
| "num_sgn NaN = 0"

fun num_mul :: "number \<Rightarrow> number \<Rightarrow> number" where
  "num_mul NaN y = NaN"
| "num_mul x NaN = NaN"
| "num_mul (Num a) (Num b) = round_double (a * b)"
| "num_mul x y =
     (if num_sgn x * num_sgn y = 0 then NaN
      else if num_sgn x * num_sgn y > 0 then PosInfinity else NegInfinity)"

text \<open>
  \<open>GameState\<close>. Its field \<open>board\<close> is a reference to the one \<open>Board\<close> object that the
  controller creates; every snapshot of the state shares that object and the actions
  change it in place, so the object is a component of the world below, not of the
  snapshot. The fields \<open>lines\<close>, \<open>level\<close>, \<open>dropInterval\<close>, the position and the
  time are integer-valued doubles that the model follows as integers: the code's
  arithmetic on them is the integer arithmetic as long as the values stay within 2^53
  in magnitude, and the statements about that arithmetic carry this bound.
\<close>

record GameState =
  status :: GameStatus
  currentPiece :: "Piece option"
  currentX :: int
  currentY :: int
  holdPiece :: "Piece option"
  canHold :: bool
  nextPieces :: "Piece list"
  score :: number
  lines :: int
  level :: int
  dropInterval :: int
  lastDropTime :: int
  isDirty :: bool

datatype move_direction = left | right | down

datatype payload = NoData | PieceData Piece | MoveData move_direction | RotateData direction
  | NumberData number

section \<open>Store, EventBus and the world of GameActions\<close>

text \<open>
  The world that \<open>GameActions\<close> acts on: the store's current state, the board object,
  the piece generator, the events emitted so far (oldest first) and the number of
  \<open>setState\<close> calls so far (each one replaces the state and notifies every subscriber).
\<close>

record world =
  state :: GameState
  board :: Board
  gen :: PieceGenerator
  emitted :: "(GameEvent \<times> payload) list"
  setStateCalls :: nat

definition setState :: "(GameState \<Rightarrow> GameState) \<Rightarrow> world \<Rightarrow> world" where
  "setState partialState w =
     w\<lparr>state := partialState (state w), setStateCalls := setStateCalls w + 1\<rparr>"

definition emit :: "GameEvent \<Rightarrow> payload \<Rightarrow> world \<Rightarrow> world" where
  "emit e d w = w\<lparr>emitted := emitted w @ [(e, d)]\<rparr>"


section \<open>GameActions (domain/GameActions)\<close>

text \<open>
  Each action reads \<open>store.getState()\<close> into the local \<open>state\<close> (here \<open>s\<close>) and keeps
  using that snapshot, also after a \<open>setState\<close>. A \<open>setState\<close> merges the given fields
  into the current state. \<open>Date.now()\<close> is read at most once on every path of an
  action: it is the argument \<open>now\<close>.
\<close>

definition canMove :: "GameState \<Rightarrow> bool" where
  "canMove s = (status s = PLAYING \<and> currentPiece s \<noteq> None)"

definition calculateLineScore :: "int \<Rightarrow> int \<Rightarrow> number" where
  "calculateLineScore n lvl =
     (case SCORE_VALUES n of None \<Rightarrow> NaN | Some v \<Rightarrow> num_mul (Num v) (Num lvl))"

definition calculateDropInterval :: "int \<Rightarrow> int" where
  "calculateDropInterval lvl =
     (let interval = INITIAL_DROP_INTERVAL - (lvl - 1) * DROP_INTERVAL_DECREASE
      in max interval MIN_DROP_INTERVAL)"

definition gameOver :: "world \<Rightarrow> world" where
  "gameOver w =
     emit GAME_OVER_EVENT NoData
       (setState (\<lambda>t. t\<lparr>status := GAME_OVER, currentPiece := None, isDirty := True\<rparr>) w)"

definition spawnNextPiece :: "int \<Rightarrow> world \<Rightarrow> fault + world" where
  "spawnNextPiece now w =
     (case next_piece (gen w) of
        Inl f \<Rightarrow> Inl f
      | Inr (nextPiece, g) \<Rightarrow>
          (let w1 = w\<lparr>gen := g\<rparr>;
               nextPieces' = getPreview g
           in if \<not> isValidPosition (board w1) nextPiece SPAWN_X SPAWN_Y
              then Inr (gameOver w1)
              else Inr (emit PIECE_SPAWN (PieceData nextPiece)
                     (setState (\<lambda>t. t\<lparr>currentPiece := Some nextPiece, currentX := SPAWN_X,
                          currentY := SPAWN_Y, canHold := True, nextPieces := nextPieces',
                          lastDropTime := now, isDirty := True\<rparr>) w1))))"

text \<open>
  \<open>lockPiece\<close>, in two parts: \<open>lock_and_score\<close> is its body up to the call of
  \<open>spawnNextPiece\<close> (placement, the event, line clearing, score and level).
\<close>

definition lock_and_score :: "Piece \<Rightarrow> world \<Rightarrow> world" where
  "lock_and_score piece w =
     (let s = state w;
          w1 = w\<lparr>board := placePiece (board w) piece (currentX s) (currentY s)\<rparr>;
          w2 = emit PIECE_LOCK (PieceData piece) w1;
          (linesCleared, b') = clearLines (board w2);
          w3 = w2\<lparr>board := b'\<rparr>
      in if linesCleared > 0 then
           (let lineScore = calculateLineScore linesCleared (level s);
                newLines = lines s + linesCleared;
                newLevel = newLines div LINES_PER_LEVEL + 1;
                leveledUp = newLevel > level s;
                w5 = setState (\<lambda>t. t\<lparr>score := num_add (score s) lineScore,
                       lines := newLines, level := newLevel,
                       dropInterval := calculateDropInterval newLevel\<rparr>) w3;
                w6 = emit LINE_CLEARED (NumberData (Num linesCleared)) w5;
                w7 = emit SCORE_UPDATE (NumberData (num_add (score s) lineScore)) w6
            in if leveledUp then emit LEVEL_UP (NumberData (Num newLevel)) w7 else w7)
         else w3)"

definition lockPiece :: "int \<Rightarrow> world \<Rightarrow> fault + world" where
  "lockPiece now w =
     (let s = state w in
      case currentPiece s of
        None \<Rightarrow> Inr w
      | Some piece \<Rightarrow> spawnNextPiece now (lock_and_score piece w))"

definition startGame :: "int \<Rightarrow> world \<Rightarrow> fault + world" where
  "startGame now w =
     (let s = state w in
      if status s = PLAYING then Inr w
      else
        (let w1 = w\<lparr>gen := reset (gen w)\<rparr>;
             w2 = w1\<lparr>board := clear_board (board w1)\<rparr>
         in case next_piece (gen w2) of
              Inl f \<Rightarrow> Inl f
            | Inr (firstPiece, g) \<Rightarrow>
                (let w3 = w2\<lparr>gen := g\<rparr>;
                     nextPieces' = getPreview g;
                     w4 = setState (\<lambda>t. t\<lparr>status := PLAYING, currentPiece := Some firstPiece,
                            currentX := SPAWN_X, currentY := SPAWN_Y, holdPiece := None,
                            canHold := True, nextPieces := nextPieces', score := Num 0,
                            lines := 0, level := 1, dropInterval := INITIAL_DROP_INTERVAL,
                            lastDropTime := now, isDirty := True\<rparr>) w3;
                     w5 = emit GAME_START NoData w4
                 in Inr (emit PIECE_SPAWN (PieceData firstPiece) w5))))"

definition pause :: "world \<Rightarrow> world" where
  "pause w =
     (let s = state w in
      if status s = PLAYING
      then emit GAME_PAUSE NoData (setState (\<lambda>t. t\<lparr>status := PAUSED, isDirty := True\<rparr>) w)
      else w)"

definition resume :: "int \<Rightarrow> world \<Rightarrow> world" where
  "resume now w =
     (let s = state w in
      if status s = PAUSED
      then emit GAME_RESUME NoData
             (setState (\<lambda>t. t\<lparr>status := PLAYING, lastDropTime := now, isDirty := True\<rparr>) w)
      else w)"

definition moveLeft :: "world \<Rightarrow> world" where
  "moveLeft w =
     (let s = state w in
      if \<not> canMove s then w
      else case currentPiece s of
        None \<Rightarrow> w
      | Some piece \<Rightarrow>
          (let newX = currentX s - 1 in
           if isValidPosition (board w) piece newX (currentY s)
           then emit PIECE_MOVE (MoveData left)
                  (setState (\<lambda>t. t\<lparr>currentX := newX, isDirty := True\<rparr>) w)
           else w))"

definition moveRight :: "world \<Rightarrow> world" where
  "moveRight w =
     (let s = state w in
      if \<not> canMove s then w
      else case currentPiece s of
        None \<Rightarrow> w
      | Some piece \<Rightarrow>
          (let newX = currentX s + 1 in
           if isValidPosition (board w) piece newX (currentY s)
           then emit PIECE_MOVE (MoveData right)
                  (setState (\<lambda>t. t\<lparr>currentX := newX, isDirty := True\<rparr>) w)
           else w))"

text \<open>\<open>moveDown\<close> returns whether the piece moved, next to the world it leaves.\<close>

definition moveDown :: "int \<Rightarrow> world \<Rightarrow> fault + (bool \<times> world)" where
  "moveDown now w =
     (let s = state w in
      if \<not> canMove s then Inr (False, w)
      else case currentPiece s of
        None \<Rightarrow> Inr (False, w)
      | Some piece \<Rightarrow>
          (let newY = currentY s + 1 in
           if isValidPosition (board w) piece (currentX s) newY
           then Inr (True, emit PIECE_MOVE (MoveData down)
                  (setState (\<lambda>t. t\<lparr>currentY := newY, lastDropTime := now, isDirty := True\<rparr>) w))
           else (case lockPiece now w of Inl f \<Rightarrow> Inl f | Inr w' \<Rightarrow> Inr (False, w'))))"

definition softDrop :: "int \<Rightarrow> world \<Rightarrow> fault + world" where
  "softDrop now w =
     (let s = state w in
      if \<not> canMove s then Inr w
      else case moveDown now w of
        Inl f \<Rightarrow> Inl f
      | Inr (moved, w1) \<Rightarrow>
          (if moved then
             (let newScore = num_add (score s) (Num SOFT_DROP_SCORE)
              in Inr (emit SCORE_UPDATE (NumberData newScore)
                   (setState (\<lambda>t. t\<lparr>score := newScore\<rparr>) w1)))
           else Inr w1))"

definition hardDrop :: "int \<Rightarrow> world \<Rightarrow> fault + world" where
  "hardDrop now w =
     (let s = state w in
      if \<not> canMove s then Inr w
      else case currentPiece s of
        None \<Rightarrow> Inr w
      | Some piece \<Rightarrow>
          (let distance = getHardDropDistance (board w) piece (currentX s) (currentY s);
               w1 = (if distance > 0 then
                       (let newY = currentY s + distance;
                            dropScore = num_mul (Num distance) (Num HARD_DROP_SCORE)
                        in emit SCORE_UPDATE (NumberData (num_add (score s) dropScore))
                             (setState (\<lambda>t. t\<lparr>currentY := newY,
                                score := num_add (score s) dropScore, isDirty := True\<rparr>) w))
                     else w)
           in lockPiece now w1))"

text \<open>
  \<open>rotate\<close>. \<open>state.currentPiece!.rotate(direction)\<close> changes the piece object of the
  current state in place (no \<open>setState\<close>); the \<open>setState\<close> that follows replaces the
  state. \<open>try_kicks\<close> is the loop over \<open>wallKickOffsets\<close>.
\<close>

definition wallKickOffsets :: "(int \<times> int) list" where
  "wallKickOffsets = [(-1, 0), (1, 0), (0, -1), (-2, 0), (2, 0)]"

definition rotate_current :: "direction \<Rightarrow> world \<Rightarrow> world" where
  "rotate_current d w =
     w\<lparr>state := (state w)\<lparr>currentPiece := map_option (rotate_piece d) (currentPiece (state w))\<rparr>\<rparr>"

fun try_kicks :: "direction \<Rightarrow> GameState \<Rightarrow> Piece \<Rightarrow> (int \<times> int) list \<Rightarrow> world \<Rightarrow> world" where
  "try_kicks d s piece [] w = w"
| "try_kicks d s piece (offset # rest) w =
     (let newX = currentX s + fst offset;
          newY = currentY s + snd offset
      in if isValidPosition (board w) piece newX newY
         then emit PIECE_ROTATE (RotateData d)
                (setState (\<lambda>t. t\<lparr>currentX := newX, currentY := newY, isDirty := True\<rparr>)
                   (rotate_current d w))
         else try_kicks d s piece rest w)"

definition rotate :: "direction \<Rightarrow> world \<Rightarrow> world" where
  "rotate d w =
     (let s = state w in
      if \<not> canMove s then w
      else case currentPiece s of
        None \<Rightarrow> w
      | Some cur \<Rightarrow>
          (let piece = rotate_piece d (clone_piece cur) in
           if isValidPosition (board w) piece (currentX s) (currentY s)
           then emit PIECE_ROTATE (RotateData d)
                  (setState (\<lambda>t. t\<lparr>isDirty := True\<rparr>) (rotate_current d w))
           else try_kicks d s piece wallKickOffsets w))"

definition hold :: "world \<Rightarrow> fault + world" where
  "hold w =
     (let s = state w in
      if \<not> canMove s \<or> \<not> canHold s then Inr w
      else case currentPiece s of
        None \<Rightarrow> Inr w
      | Some cur \<Rightarrow>
          (case holdPiece s of
             None \<Rightarrow>
               (case next_piece (gen w) of
                  Inl f \<Rightarrow> Inl f
                | Inr (nextPiece, g) \<Rightarrow>
                    (let w1 = w\<lparr>gen := g\<rparr>;
                         nextPieces' = getPreview g
                     in Inr (emit HOLD_PIECE NoData
                          (setState (\<lambda>t. t\<lparr>currentPiece := Some nextPiece, currentX := SPAWN_X,
                             currentY := SPAWN_Y, holdPiece := Some (new_Piece (ptype cur)),
                             canHold := False, nextPieces := nextPieces', isDirty := True\<rparr>) w1))))
           | Some held \<Rightarrow>
               Inr (emit HOLD_PIECE NoData
                 (setState (\<lambda>t. t\<lparr>currentPiece := Some (new_Piece (ptype held)),
                    currentX := SPAWN_X, currentY := SPAWN_Y,
                    holdPiece := Some (new_Piece (ptype cur)), canHold := False,
                    isDirty := True\<rparr>) w))))"

section \<open>GameController: the initial world, and runs of actions\<close>

text \<open>
  The constructor of \<open>GameController\<close>: a generator with a preview of one piece, the
  state \<open>MENU\<close> on an empty board. \<open>r\<close> is the sequence of results of \<open>Math.random()\<close>
  and \<open>now\<close> the time of construction.
\<close>

definition initial_world :: "(nat \<Rightarrow> rat) \<Rightarrow> int \<Rightarrow> world" where
  "initial_world r now =
     \<lparr>state = \<lparr>status = MENU, currentPiece = None, currentX = 0, currentY = 0,
                holdPiece = None, canHold = True, nextPieces = [], score = Num 0, lines = 0,
                level = 1, dropInterval = INITIAL_DROP_INTERVAL, lastDropTime = now,
                isDirty = True\<rparr>,
       board = new_Board BOARD_WIDTH BOARD_HEIGHT,
       gen = new_PieceGenerator 1 r 0,
       emitted = [],
       setStateCalls = 0\<rparr>"

text \<open>The public actions, each with the clock reading of its call, and a run of them.\<close>

datatype action = StartGame | Pause | Resume | MoveLeft | MoveRight | MoveDown | SoftDrop
  | HardDrop | Rotate direction | Hold

fun perform :: "int \<Rightarrow> action \<Rightarrow> world \<Rightarrow> fault + world" where
  "perform now StartGame w = startGame now w"
| "perform now Pause w = Inr (pause w)"
| "perform now Resume w = Inr (resume now w)"
| "perform now MoveLeft w = Inr (moveLeft w)"
| "perform now MoveRight w = Inr (moveRight w)"
| "perform now MoveDown w = map_sum id snd (moveDown now w)"
| "perform now SoftDrop w = softDrop now w"
| "perform now HardDrop w = hardDrop now w"
| "perform now (Rotate d) w = Inr (rotate d w)"
| "perform now Hold w = hold w"

fun run :: "(int \<times> action) list \<Rightarrow> world \<Rightarrow> fault + world" where
  "run [] w = Inr w"
| "run ((now, a) # rest) w =
     (case perform now a w of Inl f \<Rightarrow> Inl f | Inr w' \<Rightarrow> run rest w')"


section \<open>Observations used in the statements\<close>

text \<open>\<open>Piece.getFilledCells\<close>: the (row, col) pairs of the filled cells of the shape.\<close>


fun filled_cols :: "int \<Rightarrow> int \<Rightarrow> int list \<Rightarrow> (int \<times> int) list" where
  "filled_cols row col [] = []"
| "filled_cols row col (c # cs) =
     (if c \<noteq> 0 then (row, col) # filled_cols row (col + 1) cs
      else filled_cols row (col + 1) cs)"

fun filled_rows :: "int \<Rightarrow> shape \<Rightarrow> (int \<times> int) list" where
  "filled_rows row [] = []"
| "filled_rows row (r # rs) = filled_cols row 0 r @ filled_rows (row + 1) rs"

definition getFilledCells :: "Piece \<Rightarrow> (int \<times> int) list" where
  "getFilledCells piece = filled_rows 0 (getShape piece)"


text \<open>\<open>Board.getGrid\<close>: the cells as a list of rows.\<close>

definition getGrid :: "Board \<Rightarrow> int list list" where
  "getGrid b =
     map (\<lambda>y. map (\<lambda>x. getCell b (int x) (int y)) [0..<nat (width b)]) [0..<nat (height b)]"

text \<open>The number of game-over events emitted so far.\<close>

definition gameOverCount :: "world \<Rightarrow> nat" where
  "gameOverCount w = length (filter (\<lambda>e. fst e = GAME_OVER_EVENT) (emitted w))"

text \<open>
  \<open>draws n g\<close>: the pieces of \<open>n\<close> successive calls of \<open>generatePiece\<close>, and the
  generator they leave; \<open>unit_range\<close>: every result of \<open>Math.random()\<close> lies in [0, 1).
\<close>

fun draws :: "nat \<Rightarrow> PieceGenerator \<Rightarrow> Piece list \<times> PieceGenerator" where
  "draws 0 g = ([], g)"
| "draws (Suc n) g =
     (let (p, g') = generatePiece g;
          (ps, g'') = draws n g'
      in (p # ps, g''))"

definition unit_range :: "(nat \<Rightarrow> rat) \<Rightarrow> bool" where
  "unit_range r = (\<forall>k. 0 \<le> r k \<and> r k < 1)"

text \<open>
  The invariant of claim C2: the current piece, if there is one, is at a valid position.
\<close>

definition current_position_valid :: "world \<Rightarrow> bool" where
  "current_position_valid w =
     (case currentPiece (state w) of
        None \<Rightarrow> True
      | Some piece \<Rightarrow>
          isValidPosition (board w) piece (currentX (state w)) (currentY (state w)))"

text \<open>
  A board as the constructor makes it: the grid has \<open>width * height\<close> cells.
\<close>

definition board_ok :: "Board \<Rightarrow> bool" where
  "board_ok b = (0 \<le> width b \<and> 0 \<le> height b \<and> length (grid b) = nat (width b * height b))"

text \<open>The score table as claim C6 words it, and 2^53, the bound of the exact integers.\<close>

definition line_score_table :: "int \<Rightarrow> int" where
  "line_score_table k = (if k = 1 then 100 else if k = 2 then 300 else if k = 3 then 500 else 800)"

definition exact_bound :: int where
  "exact_bound = 9007199254740992"

section \<open>Concrete worlds\<close>

text \<open>
  Runs from the controller's initial world with every \<open>Math.random()\<close> equal to 0:
  a started game (an I piece at the spawn cell); that game paused; and the I piece
  turned upright and moved to the left wall.
\<close>

definition zero_rng :: "nat \<Rightarrow> rat" where
  "zero_rng n = 0"

definition world_after :: "(int \<times> action) list \<Rightarrow> (nat \<Rightarrow> rat) \<Rightarrow> world" where
  "world_after acts r =
     (case run acts (initial_world r 0) of Inr w \<Rightarrow> w | Inl f \<Rightarrow> initial_world r 0)"

definition started_world :: world where
  "started_world = world_after [(0, StartGame)] zero_rng"

definition paused_world :: world where
  "paused_world = world_after [(0, StartGame), (0, Pause)] zero_rng"

definition kick_world :: world where
  "kick_world =
     world_after [(0, StartGame), (0, Rotate clockwise), (0, MoveLeft), (0, MoveLeft),
       (0, MoveLeft), (0, MoveLeft), (0, MoveLeft), (0, MoveLeft)] zero_rng"

text \<open>
  A world in level 3 with 20 lines cleared: the rows 16 to 19 are full but for column 5,
  and an upright I piece stands in that column, on the floor.
\<close>

definition tetris_world :: world where
  "tetris_world =
     \<lparr>state = \<lparr>status = PLAYING, currentPiece = Some \<lparr>ptype = I_t, rotation = 1\<rparr>,
                currentX = 3, currentY = 16, holdPiece = None, canHold = True,
                nextPieces = [new_Piece T_t], score = Num 40, lines = 20, level = 3,
                dropInterval = 900, lastDropTime = 0, isDirty = False\<rparr>,
       board = \<lparr>grid = replicate 192 0
                  @ concat (replicate 4 (replicate 5 79 @ 0 # replicate 6 79)),
                width = BOARD_WIDTH, height = BOARD_HEIGHT\<rparr>,
       gen = \<lparr>bag = [O_t, S_t], preview = [new_Piece T_t], previewCount = 1,
               rng = zero_rng, rng_calls = 6\<rparr>,
       emitted = [],
       setStateCalls = 0\<rparr>"

text \<open>
  A world at level 2^53 - 1 (the largest odd integer a double holds): the rows 17 to 19
  are full but for column 5, and the upright I piece stands in that column, on the floor.
\<close>

definition huge_level_world :: world where
  "huge_level_world =
     \<lparr>state = \<lparr>status = PLAYING, currentPiece = Some \<lparr>ptype = I_t, rotation = 1\<rparr>,
                currentX = 3, currentY = 16, holdPiece = None, canHold = True,
                nextPieces = [new_Piece T_t], score = Num 0, lines = 0,
                level = 9007199254740991, dropInterval = 100, lastDropTime = 0,
                isDirty = False\<rparr>,
       board = \<lparr>grid = replicate 204 0
                  @ concat (replicate 3 (replicate 5 79 @ 0 # replicate 6 79)),
                width = BOARD_WIDTH, height = BOARD_HEIGHT\<rparr>,
       gen = \<lparr>bag = [O_t, S_t], preview = [new_Piece T_t], previewCount = 1,
               rng = zero_rng, rng_calls = 6\<rparr>,
       emitted = [],
       setStateCalls = 0\<rparr>"

text \<open>
  A world whose column 5 is filled from row 3 down, with an O piece at the spawn cell
  and a T piece next.
\<close>

definition topped_world :: world where
  "topped_world =
     \<lparr>state = \<lparr>status = PLAYING, currentPiece = Some (new_Piece O_t),
                currentX = SPAWN_X, currentY = SPAWN_Y, holdPiece = None, canHold = True,
                nextPieces = [new_Piece T_t], score = Num 0, lines = 0, level = 1,
                dropInterval = 1000, lastDropTime = 0, isDirty = False\<rparr>,
       board = \<lparr>grid = replicate 36 0
                  @ concat (replicate 17 (replicate 5 0 @ 73 # replicate 6 0)),
                width = BOARD_WIDTH, height = BOARD_HEIGHT\<rparr>,
       gen = \<lparr>bag = [I_t, S_t], preview = [new_Piece T_t], previewCount = 1,
               rng = zero_rng, rng_calls = 12\<rparr>,
       emitted = [],
       setStateCalls = 0\<rparr>"

text \<open>The world that a hard drop leaves there.\<close>

definition game_over_world :: world where
  "game_over_world = projr (hardDrop 0 topped_world)"


text \<open>A generator at a refill: its bag is empty.\<close>

definition empty_bag_generator :: PieceGenerator where
  "empty_bag_generator = \<lparr>bag = [], preview = [], previewCount = 1, rng = zero_rng, rng_calls = 0\<rparr>"

text \<open>
  A game in progress, paused: one soft drop and one hard drop of the first piece, then
  \<open>pause\<close>.
\<close>

definition progress_paused_world :: world where
  "progress_paused_world =
     world_after [(0, StartGame), (0, SoftDrop), (0, HardDrop), (0, Pause)] zero_rng"


text \<open>
  A run that stacks six upright pieces in the columns 4 to 6, up to row 2. The results
  of \<open>Math.random()\<close> are chosen so that the first bag deals I, J, L, T, Z, S, O and
  the second bag starts with T.
\<close>

definition stack_rng :: "nat \<Rightarrow> rat" where
  "stack_rng n = (if n = 7 then 5 / 6 else if n = 9 then 1 / 2 else if n = 12 then 2 / 7 else 0)"

definition stack_run :: "(int \<times> action) list" where
  "stack_run =
     [(0, StartGame), (0, Rotate clockwise), (0, MoveLeft), (0, HardDrop),
      (0, Rotate clockwise), (0, HardDrop), (0, Rotate counterclockwise), (0, HardDrop),
      (0, Rotate clockwise), (0, HardDrop), (0, Rotate clockwise), (0, HardDrop),
      (0, Rotate counterclockwise), (0, HardDrop)]"

section \<open>The reads of the model are in range\<close>

text \<open>
  The index into the shape list of a piece is below its length, and on a board with
  \<open>width * height\<close> cells the index of a cell inside the grid is below the length of
  the grid; the board operations keep that shape of the board.
\<close>

lemma PIECE_SHAPES_length: "length (PIECE_SHAPES t) = 4"
  by (cases t) (simp_all add: PIECE_SHAPES_def)

lemma getShape_defined: "unat (rotation p) < length (PIECE_SHAPES (ptype p))"
proof -
  have "unat (rotation p) < 2 ^ LENGTH(2)" by (rule unsigned_less)
  then show ?thesis by (simp add: PIECE_SHAPES_length)
qed

lemma getIndex_in_range:
  assumes "board_ok b" "0 \<le> x" "x < width b" "0 \<le> y" "y < height b"
  shows "nat (getIndex b x y) < length (grid b)"
proof -
  have "y * width b + x < (y + 1) * width b" using assms by (simp add: algebra_simps)
  also have "\<dots> \<le> height b * width b"
    using assms by (intro mult_right_mono) simp_all
  finally have "getIndex b x y < width b * height b"
    by (simp add: getIndex_def mult.commute)
  moreover have "0 \<le> getIndex b x y" using assms by (simp add: getIndex_def)
  ultimately show ?thesis using assms(1) by (simp add: board_ok_def)
qed

lemma setCell_ok: "board_ok b \<Longrightarrow> board_ok (setCell b x y v)"
  by (simp add: board_ok_def setCell_def)

lemma place_cols_ok: "board_ok b \<Longrightarrow> board_ok (place_cols b v x boardY col cs)"
  by (induction cs arbitrary: b col) (simp_all add: Let_def setCell_ok)

lemma place_rows_ok: "board_ok b \<Longrightarrow> board_ok (place_rows b v x y row rs)"
  by (induction rs arbitrary: b row) (simp_all add: place_cols_ok)

lemma copyRow_from_ok: "board_ok b \<Longrightarrow> board_ok (copyRow_from b y x)"
  by (induction b y x rule: copyRow_from.induct)
    (subst copyRow_from.simps, simp add: setCell_ok)

lemma shiftDown_from_ok: "board_ok b \<Longrightarrow> board_ok (shiftDown_from b y)"
  by (induction b y rule: shiftDown_from.induct)
    (subst shiftDown_from.simps, simp add: copyRow_from_ok)

lemma clearTop_from_ok: "board_ok b \<Longrightarrow> board_ok (clearTop_from b x)"
  by (induction b x rule: clearTop_from.induct)
    (subst clearTop_from.simps, simp add: setCell_ok)

lemma clear_each_ok: "board_ok b \<Longrightarrow> board_ok (snd (clear_each b n ys))"
  by (induction ys arbitrary: b n) (simp_all add: clearTop_from_ok shiftDown_from_ok)

lemma board_ok_kept:
  "board_ok (new_Board BOARD_WIDTH BOARD_HEIGHT)"
  "board_ok b \<Longrightarrow> board_ok (placePiece b piece x y)"
  "board_ok b \<Longrightarrow> board_ok (snd (clearLines b))"
  "board_ok b \<Longrightarrow> board_ok (clear_board b)"
  by (simp_all add: placePiece_def place_rows_ok clearLines_def clear_each_ok)
    (simp_all add: board_ok_def new_Board_def clear_board_def BOARD_WIDTH_def BOARD_HEIGHT_def)

section \<open>Board: cell access and placement\<close>

lemma getIndex_inj:
  assumes "0 \<le> cx" "cx < width b" "0 \<le> x" "x < width b" "0 \<le> cy" "0 \<le> y"
    and "nat (getIndex b cx cy) = nat (getIndex b x y)"
  shows "cx = x \<and> cy = y"
proof -
  have w: "0 < width b" using assms by linarith
  have "0 \<le> cy * width b + cx" "0 \<le> y * width b + x" using assms w by simp_all
  with assms(7) have eq: "cy * width b + cx = y * width b + x"
    by (simp add: getIndex_def eq_nat_nat_iff)
  have "(cy * width b + cx) div width b = cy" using assms w by simp
  moreover have "(y * width b + x) div width b = y" using assms w by simp
  ultimately have "cy = y" using eq by simp
  with eq show ?thesis by simp
qed

lemma setCell_dims [simp]: "width (setCell b x y v) = width b" "height (setCell b x y v) = height b"
  by (simp_all add: setCell_def)

lemma getCell_setCell_other:
  assumes "0 \<le> cx" "cx < width b" "0 \<le> cy" "cy < height b" "(cx, cy) \<noteq> (x, y)"
  shows "getCell (setCell b x y v) cx cy = getCell b cx cy"
proof (cases "x \<ge> 0 \<and> x < width b \<and> y \<ge> 0 \<and> y < height b")
  case True
  with assms getIndex_inj [of cx b x cy y]
  have "nat (getIndex b cx cy) \<noteq> nat (getIndex b x y)" by auto
  then have "(grid b)[nat (getIndex b x y) := word_of_int v] ! nat (getIndex b cx cy)
      = grid b ! nat (getIndex b cx cy)"
    by simp
  with True show ?thesis
    by (simp add: getCell_def setCell_def getIndex_def)
next
  case False
  then have "setCell b x y v = b" by (auto simp: setCell_def)
  then show ?thesis by simp
qed

lemma place_cols_dims [simp]:
  "width (place_cols b v x boardY col cs) = width b"
  "height (place_cols b v x boardY col cs) = height b"
  by (induction cs arbitrary: b col) (simp_all add: Let_def)

lemma place_rows_dims [simp]:
  "width (place_rows b v x y row rs) = width b"
  "height (place_rows b v x y row rs) = height b"
  by (induction rs arbitrary: b row) simp_all

lemma place_cols_frame:
  assumes "0 \<le> cx" "cx < width b" "0 \<le> cy" "cy < height b"
    and "(cy - y, cx - x) \<notin> set (filled_cols (boardY - y) col cs)"
  shows "getCell (place_cols b v x boardY col cs) cx cy = getCell b cx cy"
  using assms
proof (induction cs arbitrary: b col)
  case Nil
  then show ?case by simp
next
  case (Cons c cs)
  show ?case
  proof (cases "c \<noteq> 0 \<and> boardY \<ge> 0")
    case True
    with Cons.prems have ne: "(cx, cy) \<noteq> (x + col, boardY)" by auto
    from True Cons.prems have notin: "(cy - y, cx - x) \<notin> set (filled_cols (boardY - y) (col + 1) cs)"
      by simp
    have "getCell (place_cols (setCell b (x + col) boardY v) v x boardY (col + 1) cs) cx cy
        = getCell (setCell b (x + col) boardY v) cx cy"
      using Cons.prems notin by (intro Cons.IH) simp_all
    also have "\<dots> = getCell b cx cy"
      using Cons.prems ne by (intro getCell_setCell_other) simp_all
    finally show ?thesis using True by (simp add: Let_def)
  next
    case False
    with Cons.prems have notin: "(cy - y, cx - x) \<notin> set (filled_cols (boardY - y) (col + 1) cs)"
      by (simp split: if_splits)
    have "getCell (place_cols b v x boardY (col + 1) cs) cx cy = getCell b cx cy"
      using Cons.prems notin by (intro Cons.IH) simp_all
    with False show ?thesis by (auto simp: Let_def)
  qed
qed

lemma place_rows_frame:
  assumes "0 \<le> cx" "cx < width b" "0 \<le> cy" "cy < height b"
    and "(cy - y, cx - x) \<notin> set (filled_rows row rs)"
  shows "getCell (place_rows b v x y row rs) cx cy = getCell b cx cy"
  using assms
proof (induction rs arbitrary: b row)
  case Nil
  then show ?case by simp
next
  case (Cons r rs)
  from Cons.prems have n1: "(cy - y, cx - x) \<notin> set (filled_cols (y + row - y) 0 r)"
    and n2: "(cy - y, cx - x) \<notin> set (filled_rows (row + 1) rs)" by simp_all
  have "getCell (place_rows (place_cols b v x (y + row) 0 r) v x y (row + 1) rs) cx cy
      = getCell (place_cols b v x (y + row) 0 r) cx cy"
    using Cons.prems n2 by (intro Cons.IH) simp_all
  also have "\<dots> = getCell b cx cy"
    using Cons.prems n1 by (intro place_cols_frame [where y = y]) simp_all
  finally show ?case by simp
qed


text \<open>
  Claim C10. Outside the grid \<open>getCell\<close> reads 0 and \<open>setCell\<close> changes nothing; and
  \<open>placePiece\<close>, at any coordinates, leaves every cell inside the grid as it was unless
  that cell is one of the filled cells of the piece at these coordinates.
\<close>

theorem board_access_bounds_safe:
  "(x < 0 \<or> width b \<le> x \<or> y < 0 \<or> height b \<le> y
      \<longrightarrow> getCell b x y = 0 \<and> setCell b x y v = b) \<and>
   (0 \<le> cx \<and> cx < width b \<and> 0 \<le> cy \<and> cy < height b
      \<and> (cy - py, cx - px) \<notin> set (getFilledCells piece)
      \<longrightarrow> getCell (placePiece b piece px py) cx cy = getCell b cx cy)"
proof (intro conjI impI)
  assume "x < 0 \<or> width b \<le> x \<or> y < 0 \<or> height b \<le> y"
  then show "getCell b x y = 0" "setCell b x y v = b"
    by (auto simp: getCell_def setCell_def)
next
  assume "0 \<le> cx \<and> cx < width b \<and> 0 \<le> cy \<and> cy < height b
      \<and> (cy - py, cx - px) \<notin> set (getFilledCells piece)"
  then show "getCell (placePiece b piece px py) cx cy = getCell b cx cy"
    unfolding placePiece_def getFilledCells_def
    by (intro place_rows_frame) simp_all
qed


theorem board_access_bounds_safe_witness:
  "(width (new_Board BOARD_WIDTH BOARD_HEIGHT) \<le> 12
    \<and> getCell (new_Board BOARD_WIDTH BOARD_HEIGHT) 12 3 = 0
    \<and> setCell (new_Board BOARD_WIDTH BOARD_HEIGHT) 12 3 7 = new_Board BOARD_WIDTH BOARD_HEIGHT)
   \<and> ((0 - (-2), 0 - 10) \<notin> set (getFilledCells (new_Piece T_t))
    \<and> getCell (placePiece (new_Board BOARD_WIDTH BOARD_HEIGHT) (new_Piece T_t) 10 (-2)) 0 0
        = getCell (new_Board BOARD_WIDTH BOARD_HEIGHT) 0 0)"
  using board_access_bounds_safe [where x = 12 and y = 3 and v = 7 and cx = 0 and cy = 0
      and px = 10 and py = "-2" and piece = "new_Piece T_t"
      and b = "new_Board BOARD_WIDTH BOARD_HEIGHT"]
  by (simp add: new_Board_def BOARD_WIDTH_def BOARD_HEIGHT_def getFilledCells_def
      getShape_def PIECE_SHAPES_def new_Piece_def)

section \<open>Board: line clearing\<close>

text \<open>
  A board with one cell in row 17 (column 0) and the rows 18 and 19 full, every cell
  carrying the tag of an I piece.
\<close>

definition two_full_rows :: Board where
  "two_full_rows =
     \<lparr>grid = replicate 204 0 @ (73 # replicate 11 0) @ replicate 24 73,
      width = BOARD_WIDTH, height = BOARD_HEIGHT\<rparr>"

text \<open>
  Claim C3, at this board: \<open>clearLines\<close> returns 2, and afterwards row 19 is still full
  (it holds the former row 18), the rows 17 and 18 are empty and the cell of the former
  row 17 is gone: the second recorded row index, 18, is used after the first shift has
  moved the rows.
\<close>

theorem clearLines_two_adjacent_full_rows:
  "linesToClear_from two_full_rows 0 = [18, 19] \<and>
   fst (clearLines two_full_rows) = 2 \<and>
   getGrid (snd (clearLines two_full_rows)) = replicate 19 (replicate 12 0) @ [replicate 12 73] \<and>
   linesToClear_from (snd (clearLines two_full_rows)) 0 = [19]"
  by code_simp


section \<open>The guard of the piece-mutating actions\<close>

text \<open>
  Claim C1. When the status is not \<open>PLAYING\<close> or there is no current piece, each of
  \<open>moveLeft\<close>, \<open>moveRight\<close>, \<open>moveDown\<close>, \<open>softDrop\<close>, \<open>hardDrop\<close>, \<open>rotate\<close> and \<open>hold\<close>
  returns the world as it was: the same state and board, no \<open>setState\<close> call, no event,
  no piece drawn.
\<close>

theorem guarded_actions_no_effect:
  "\<not> canMove (state w) \<Longrightarrow>
     moveLeft w = w \<and> moveRight w = w \<and> moveDown now w = Inr (False, w) \<and>
     softDrop now w = Inr w \<and> hardDrop now w = Inr w \<and> rotate d w = w \<and> hold w = Inr w"
  by (simp add: moveLeft_def moveRight_def moveDown_def softDrop_def hardDrop_def rotate_def
      hold_def)

lemma paused_world_facts:
  "status (state paused_world) = PAUSED \<and>
   currentPiece (state paused_world) = Some (new_Piece I_t)"
  by code_simp

theorem guarded_actions_no_effect_witness:
  "\<not> canMove (state paused_world) \<and> currentPiece (state paused_world) \<noteq> None \<and>
   moveLeft paused_world = paused_world \<and> moveRight paused_world = paused_world \<and>
   moveDown 5 paused_world = Inr (False, paused_world) \<and>
   softDrop 5 paused_world = Inr paused_world \<and> hardDrop 5 paused_world = Inr paused_world \<and>
   rotate clockwise paused_world = paused_world \<and> hold paused_world = Inr paused_world"
proof -
  have h: "\<not> canMove (state paused_world)"
    using paused_world_facts by (simp add: canMove_def)
  show ?thesis
    using h guarded_actions_no_effect [OF h, of 5 clockwise] paused_world_facts by simp
qed

section \<open>Rotation with wall kicks\<close>

lemma try_kicks_find:
  "try_kicks d s piece offsets w =
     (case find (\<lambda>(dx, dy). isValidPosition (board w) piece (currentX s + dx) (currentY s + dy))
             offsets of
        None \<Rightarrow> w
      | Some (dx, dy) \<Rightarrow>
          emit PIECE_ROTATE (RotateData d)
            (setState (\<lambda>t. t\<lparr>currentX := currentX s + dx, currentY := currentY s + dy,
                 isDirty := True\<rparr>) (rotate_current d w)))"
  by (induction offsets) (auto simp: Let_def)

lemma clone_piece_id [simp]: "clone_piece p = p"
  by (simp add: clone_piece_def new_Piece_def)

text \<open>
  Claim C5. In a \<open>PLAYING\<close> state with a current piece, \<open>rotate\<close> commits the rotation
  with the first of the displacements (0,0), (-1,0), (1,0), (0,-1), (-2,0), (2,0), in
  this order, at which the rotated clone is valid: the piece is rotated, the position
  is displaced, the state is replaced once and one \<open>PIECE_ROTATE\<close> is emitted. When all
  six fail the world is unchanged.
\<close>

theorem rotate_first_valid_kick:
  assumes "status (state w) = PLAYING" and "currentPiece (state w) = Some cur"
  shows "rotate d w =
     (case find (\<lambda>(dx, dy). isValidPosition (board w) (rotate_piece d (clone_piece cur))
                   (currentX (state w) + dx) (currentY (state w) + dy))
             [(0, 0), (-1, 0), (1, 0), (0, -1), (-2, 0), (2, 0)] of
        None \<Rightarrow> w
      | Some (dx, dy) \<Rightarrow>
          w\<lparr>state := (state w)\<lparr>currentPiece := Some (rotate_piece d cur),
                 currentX := currentX (state w) + dx, currentY := currentY (state w) + dy,
                 isDirty := True\<rparr>,
            emitted := emitted w @ [(PIECE_ROTATE, RotateData d)],
            setStateCalls := setStateCalls w + 1\<rparr>)"
proof (cases "isValidPosition (board w) (rotate_piece d cur) (currentX (state w)) (currentY (state w))")
  case True
  with assms show ?thesis
    by (simp add: rotate_def canMove_def emit_def setState_def rotate_current_def)
next
  case False
  with assms have "rotate d w = try_kicks d (state w) (rotate_piece d cur) wallKickOffsets w"
    by (simp add: rotate_def canMove_def)
  with False assms show ?thesis
    by (simp add: try_kicks_find wallKickOffsets_def emit_def setState_def rotate_current_def
        split: option.split)
qed

lemma kick_world_facts:
  "status (state kick_world) = PLAYING \<and>
   currentPiece (state kick_world) = Some \<lparr>ptype = I_t, rotation = 1\<rparr> \<and>
   currentX (state kick_world) = -2 \<and> currentY (state kick_world) = 0"
  by code_simp

lemma kick_world_find:
  "find (\<lambda>(dx, dy). isValidPosition (board kick_world)
           (rotate_piece clockwise (clone_piece \<lparr>ptype = I_t, rotation = 1\<rparr>))
           (currentX (state kick_world) + dx) (currentY (state kick_world) + dy))
     [(0, 0), (-1, 0), (1, 0), (0, -1), (-2, 0), (2, 0)] = Some (2, 0)"
  by code_simp

theorem rotate_first_valid_kick_witness:
  "status (state kick_world) = PLAYING \<and>
   currentPiece (state kick_world) = Some \<lparr>ptype = I_t, rotation = 1\<rparr> \<and>
   rotate clockwise kick_world =
     kick_world\<lparr>state := (state kick_world)\<lparr>currentPiece := Some \<lparr>ptype = I_t, rotation = 2\<rparr>,
                    currentX := 0, currentY := 0, isDirty := True\<rparr>,
       emitted := emitted kick_world @ [(PIECE_ROTATE, RotateData clockwise)],
       setStateCalls := setStateCalls kick_world + 1\<rparr>"
proof -
  have h1: "status (state kick_world) = PLAYING"
    and h2: "currentPiece (state kick_world) = Some \<lparr>ptype = I_t, rotation = 1\<rparr>"
    using kick_world_facts by simp_all
  show ?thesis
    using h1 h2 rotate_first_valid_kick [OF h1 h2, of clockwise] kick_world_find kick_world_facts
    by (simp add: rotate_piece_def)
qed


section \<open>Locking: score, lines, level and gravity\<close>

lemma spawnNextPiece_fields:
  assumes "spawnNextPiece now w = Inr w'"
  shows "score (state w') = score (state w) \<and> lines (state w') = lines (state w) \<and>
         level (state w') = level (state w) \<and> dropInterval (state w') = dropInterval (state w)"
  using assms
  by (auto simp: spawnNextPiece_def gameOver_def setState_def emit_def Let_def
      split: sum.splits prod.splits if_splits)

lemma spawnNextPiece_returns:
  "preview (gen w) \<noteq> [] \<Longrightarrow> \<exists>w'. spawnNextPiece now w = Inr w'"
  by (auto simp: spawnNextPiece_def next_piece_def Let_def split: list.splits prod.splits)

lemma lock_and_score_gen [simp]: "gen (lock_and_score piece w) = gen w"
  by (simp add: lock_and_score_def Let_def setState_def emit_def split: prod.splits)

lemma lock_and_score_fields:
  assumes "fst (clearLines (placePiece (board w) piece (currentX (state w)) (currentY (state w)))) = k"
    and "0 < k"
  shows "score (state (lock_and_score piece w))
           = num_add (score (state w)) (calculateLineScore k (level (state w)))"
    and "lines (state (lock_and_score piece w)) = lines (state w) + k"
    and "level (state (lock_and_score piece w)) = (lines (state w) + k) div LINES_PER_LEVEL + 1"
    and "dropInterval (state (lock_and_score piece w))
           = calculateDropInterval ((lines (state w) + k) div LINES_PER_LEVEL + 1)"
  using assms
  by (auto simp: lock_and_score_def Let_def setState_def emit_def split: prod.splits)

lemma round_double_exact: "\<bar>n\<bar> \<le> exact_bound \<Longrightarrow> round_double n = Num n"
  by (simp add: round_double_def exact_bound_def)

lemma calculateLineScore_table:
  assumes "1 \<le> k" and "k \<le> 4" and "\<bar>line_score_table k * l\<bar> \<le> exact_bound"
  shows "calculateLineScore k l = Num (line_score_table k * l)"
proof -
  from assms(1,2) have "k = 1 \<or> k = 2 \<or> k = 3 \<or> k = 4" by arith
  then have "calculateLineScore k l = round_double (line_score_table k * l)"
    by (auto simp: calculateLineScore_def SCORE_VALUES_def line_score_table_def)
  with assms(3) show ?thesis by (simp add: round_double_exact)
qed

lemma calculateDropInterval_eq: "calculateDropInterval l = max (1000 - (l - 1) * 50) 100"
  by (simp add: calculateDropInterval_def INITIAL_DROP_INTERVAL_def DROP_INTERVAL_DECREASE_def
      MIN_DROP_INTERVAL_def)

text \<open>
  Claim C6 as stated fails where the doubles round: in \<open>huge_level_world\<close> (score 0,
  level 2^53 - 1) the lock clears 3 rows and \<open>lockPiece\<close> leaves the score
  4503599627370495488, which is not 500 times the level, 4503599627370495500.
\<close>

theorem line_score_rounds_at_huge_level:
  "currentPiece (state huge_level_world) = Some \<lparr>ptype = I_t, rotation = 1\<rparr> \<and>
   fst (clearLines (placePiece (board huge_level_world) \<lparr>ptype = I_t, rotation = 1\<rparr>
          (currentX (state huge_level_world)) (currentY (state huge_level_world)))) = 3 \<and>
   score (state huge_level_world) = Num 0 \<and>
   level (state huge_level_world) = 9007199254740991 \<and>
   \<not> isl (lockPiece 7 huge_level_world) \<and>
   score (state (projr (lockPiece 7 huge_level_world))) = Num 4503599627370495488 \<and>
   score (state (projr (lockPiece 7 huge_level_world)))
     \<noteq> Num (0 + 500 * level (state huge_level_world))"
  by code_simp

text \<open>
  Claim C6, amended. When the lock of the current piece clears \<open>k\<close> rows, 1 \<le> k \<le> 4
  (\<open>k\<close> is what \<open>clearLines\<close> returns on the board with the piece placed), and the
  numbers stay among the integers that a double holds exactly (the score is an integer
  \<open>s\<close>; the table entry times the level, and \<open>s\<close> plus that product, are at most 2^53
  in magnitude; the line total is not negative and 5 times the new line total is at
  most 2^53), then \<open>lockPiece\<close> returns and the score is \<open>s\<close> plus 100, 300, 500 or 800
  times the level at the time of the lock, the line total has grown by \<open>k\<close>, the level
  is the new line total div 10, plus 1, and the gravity interval is
  max (1000 - (level - 1) * 50) 100 at the new level: a function that, on the levels
  with 50 * (level - 1) at most 2^53 in magnitude, never grows with the level and never
  falls below 100. One line at level 1 scores 100, four lines at level 3 score 2400.
\<close>

theorem lock_line_score_and_level:
  assumes "currentPiece (state w) = Some piece"
    and "fst (clearLines (placePiece (board w) piece (currentX (state w)) (currentY (state w)))) = k"
    and "1 \<le> k" and "k \<le> 4"
    and "preview (gen w) \<noteq> []"
    and "score (state w) = Num s"
    and "\<bar>line_score_table k * level (state w)\<bar> \<le> exact_bound"
    and "\<bar>s + line_score_table k * level (state w)\<bar> \<le> exact_bound"
    and "0 \<le> lines (state w)" and "5 * (lines (state w) + k) \<le> exact_bound"
  shows "(\<exists>w'. lockPiece now w = Inr w' \<and>
            score (state w') = Num (s + line_score_table k * level (state w)) \<and>
            lines (state w') = lines (state w) + k \<and>
            level (state w') = (lines (state w) + k) div 10 + 1 \<and>
            dropInterval (state w') = max (1000 - (level (state w') - 1) * 50) 100) \<and>
         (\<forall>l l'. \<bar>50 * (l - 1)\<bar> \<le> exact_bound \<and> \<bar>50 * (l' - 1)\<bar> \<le> exact_bound \<and> l \<le> l'
            \<longrightarrow> calculateDropInterval l' \<le> calculateDropInterval l) \<and>
         (\<forall>l. \<bar>50 * (l - 1)\<bar> \<le> exact_bound \<longrightarrow> 100 \<le> calculateDropInterval l) \<and>
         calculateLineScore 1 1 = Num 100 \<and> calculateLineScore 4 3 = Num 2400"
proof -
  from assms(5) have "preview (gen (lock_and_score piece w)) \<noteq> []" by simp
  then obtain w' where sp: "spawnNextPiece now (lock_and_score piece w) = Inr w'"
    using spawnNextPiece_returns by blast
  with assms(1) have lk: "lockPiece now w = Inr w'"
    by (simp add: lockPiece_def)
  from assms(3) have k: "0 < k" by simp
  note f = spawnNextPiece_fields [OF sp] lock_and_score_fields [OF assms(2) k]
  have "score (state w') = num_add (Num s) (Num (line_score_table k * level (state w)))"
    using f assms(6) calculateLineScore_table [OF assms(3,4,7)] by simp
  then have "score (state w') = Num (s + line_score_table k * level (state w))"
    using assms(8) by (simp add: round_double_exact)
  moreover have "lines (state w') = lines (state w) + k" using f by simp
  moreover have lv: "level (state w') = (lines (state w) + k) div 10 + 1"
    using f by (simp add: LINES_PER_LEVEL_def)
  moreover have "dropInterval (state w') = max (1000 - (level (state w') - 1) * 50) 100"
    using f lv by (simp add: calculateDropInterval_eq LINES_PER_LEVEL_def)
  moreover have "\<forall>l l'. \<bar>50 * (l - 1)\<bar> \<le> exact_bound \<and> \<bar>50 * (l' - 1)\<bar> \<le> exact_bound \<and> l \<le> l'
      \<longrightarrow> calculateDropInterval l' \<le> calculateDropInterval l"
    by (auto simp: calculateDropInterval_eq)
  moreover have "\<forall>l. \<bar>50 * (l - 1)\<bar> \<le> exact_bound \<longrightarrow> 100 \<le> calculateDropInterval l"
    by (simp add: calculateDropInterval_eq)
  moreover have "calculateLineScore 1 1 = Num 100 \<and> calculateLineScore 4 3 = Num 2400"
    by (simp add: calculateLineScore_def SCORE_VALUES_def round_double_def)
  ultimately show ?thesis using lk by blast
qed

lemma tetris_world_clears:
  "fst (clearLines (placePiece (board tetris_world) \<lparr>ptype = I_t, rotation = 1\<rparr>
          (currentX (state tetris_world)) (currentY (state tetris_world)))) = 4"
  by code_simp

theorem lock_line_score_and_level_witness:
  "currentPiece (state tetris_world) = Some \<lparr>ptype = I_t, rotation = 1\<rparr> \<and>
   fst (clearLines (placePiece (board tetris_world) \<lparr>ptype = I_t, rotation = 1\<rparr>
          (currentX (state tetris_world)) (currentY (state tetris_world)))) = 4 \<and>
   preview (gen tetris_world) \<noteq> [] \<and> score (state tetris_world) = Num 40 \<and>
   level (state tetris_world) = 3 \<and> lines (state tetris_world) = 20 \<and>
   (\<exists>w'. lockPiece 7 tetris_world = Inr w' \<and> score (state w') = Num 2440 \<and>
      lines (state w') = 24 \<and> level (state w') = 3 \<and> dropInterval (state w') = 900)"
proof -
  have h1: "currentPiece (state tetris_world) = Some \<lparr>ptype = I_t, rotation = 1\<rparr>"
    and h5: "preview (gen tetris_world) \<noteq> []"
    and h6: "score (state tetris_world) = Num 40"
    and s: "lines (state tetris_world) = 20" "level (state tetris_world) = 3"
    by (simp_all add: tetris_world_def)
  have h3: "(1::int) \<le> 4" and h4: "(4::int) \<le> 4" by simp_all
  have h7: "\<bar>line_score_table 4 * level (state tetris_world)\<bar> \<le> exact_bound"
    and h8: "\<bar>40 + line_score_table 4 * level (state tetris_world)\<bar> \<le> exact_bound"
    and h9: "0 \<le> lines (state tetris_world)"
    and h10: "5 * (lines (state tetris_world) + 4) \<le> exact_bound"
    by (simp_all add: s line_score_table_def exact_bound_def)
  show ?thesis
    using h1 h5 h6 tetris_world_clears
      lock_line_score_and_level [OF h1 tetris_world_clears h3 h4 h5 h6 h7 h8 h9 h10, of 7]
    by (auto simp: s line_score_table_def)
qed

section \<open>Spawning and game over\<close>

lemma next_piece_Cons:
  "preview g = p # rest \<Longrightarrow> \<exists>g'. next_piece g = Inr (p, g')"
  by (auto simp: next_piece_def Let_def split: prod.splits)

lemma next_piece_Inr:
  "next_piece g = Inr (p, g') \<Longrightarrow> \<exists>rest. preview g = p # rest"
  by (auto simp: next_piece_def Let_def split: list.splits prod.splits)

lemma spawn_invalid:
  assumes "next_piece (gen w) = Inr (p, g)"
    and "\<not> isValidPosition (board w) p SPAWN_X SPAWN_Y"
  shows "spawnNextPiece now w = Inr (gameOver (w\<lparr>gen := g\<rparr>))"
  using assms by (simp add: spawnNextPiece_def)

lemma spawn_valid:
  assumes "next_piece (gen w) = Inr (p, g)"
    and "isValidPosition (board w) p SPAWN_X SPAWN_Y"
  shows "spawnNextPiece now w =
     Inr (emit PIECE_SPAWN (PieceData p)
       (setState (\<lambda>t. t\<lparr>currentPiece := Some p, currentX := SPAWN_X,
            currentY := SPAWN_Y, canHold := True, nextPieces := getPreview g,
            lastDropTime := now, isDirty := True\<rparr>) (w\<lparr>gen := g\<rparr>)))"
  using assms by (simp add: spawnNextPiece_def)

lemma lock_and_score_kept [simp]:
  "status (state (lock_and_score piece w)) = status (state w)"
  "canHold (state (lock_and_score piece w)) = canHold (state w)"
  "holdPiece (state (lock_and_score piece w)) = holdPiece (state w)"
  by (simp_all add: lock_and_score_def Let_def setState_def emit_def split: prod.splits)

lemma lock_and_score_gameOverCount [simp]:
  "gameOverCount (lock_and_score piece w) = gameOverCount w"
  by (simp add: lock_and_score_def Let_def setState_def emit_def gameOverCount_def
      split: prod.splits)

lemma gameOver_effect:
  "status (state (gameOver w)) = GAME_OVER"
  "currentPiece (state (gameOver w)) = None"
  "gameOverCount (gameOver w) = gameOverCount w + 1"
  by (simp_all add: gameOver_def setState_def emit_def gameOverCount_def)

lemma lockPiece_game_over_only_by_spawn:
  assumes "lockPiece now u = Inr v'" and "currentPiece (state u) = Some piece"
    and "status (state v') = GAME_OVER" and "status (state u) \<noteq> GAME_OVER"
  shows "\<exists>p rest. preview (gen u) = p # rest \<and>
           \<not> isValidPosition (board (lock_and_score piece u)) p SPAWN_X SPAWN_Y"
proof -
  from assms(1,2) have sp: "spawnNextPiece now (lock_and_score piece u) = Inr v'"
    by (simp add: lockPiece_def)
  then obtain p g where np: "next_piece (gen u) = Inr (p, g)"
    by (auto simp: spawnNextPiece_def split: sum.splits)
  then obtain rest where pv: "preview (gen u) = p # rest"
    using next_piece_Inr by blast
  have "\<not> isValidPosition (board (lock_and_score piece u)) p SPAWN_X SPAWN_Y"
  proof
    assume "isValidPosition (board (lock_and_score piece u)) p SPAWN_X SPAWN_Y"
    with np sp have "status (state v') = status (state u)"
      by (auto simp: spawn_valid setState_def emit_def)
    with assms(3,4) show False by simp
  qed
  with pv show ?thesis by blast
qed

lemma perform_game_over:
  assumes "perform now a v = Inr v'" and "status (state v') = GAME_OVER"
    and "status (state v) \<noteq> GAME_OVER"
  shows "(a = MoveDown \<or> a = SoftDrop \<or> a = HardDrop) \<and>
     (\<exists>u piece p rest. currentPiece (state u) = Some piece \<and> preview (gen u) = p # rest \<and>
        \<not> isValidPosition (board (lock_and_score piece u)) p SPAWN_X SPAWN_Y \<and>
        lockPiece now u = Inr v')"
proof (cases a)
  case StartGame
  with assms show ?thesis
    by (auto simp: startGame_def Let_def setState_def emit_def split: if_splits sum.splits)
next
  case Pause
  with assms show ?thesis
    by (auto simp: pause_def Let_def setState_def emit_def split: if_splits)
next
  case Resume
  with assms show ?thesis
    by (auto simp: resume_def Let_def setState_def emit_def split: if_splits)
next
  case MoveLeft
  with assms show ?thesis
    by (auto simp: moveLeft_def Let_def setState_def emit_def split: if_splits option.splits)
next
  case MoveRight
  with assms show ?thesis
    by (auto simp: moveRight_def Let_def setState_def emit_def split: if_splits option.splits)
next
  case MoveDown
  with assms obtain piece where "currentPiece (state v) = Some piece" "lockPiece now v = Inr v'"
    by (auto simp: moveDown_def Let_def setState_def emit_def
        split: if_splits option.splits sum.splits)
  with assms(2,3) MoveDown lockPiece_game_over_only_by_spawn [of now v v' piece]
  show ?thesis by blast
next
  case SoftDrop
  with assms obtain piece where "currentPiece (state v) = Some piece" "lockPiece now v = Inr v'"
    by (auto simp: softDrop_def moveDown_def Let_def setState_def emit_def
        split: if_splits option.splits sum.splits)
  with assms(2,3) SoftDrop lockPiece_game_over_only_by_spawn [of now v v' piece]
  show ?thesis by blast
next
  case HardDrop
  have cm: "canMove (state v)"
  proof (rule ccontr)
    assume "\<not> canMove (state v)"
    then have "hardDrop now v = Inr v" by (simp add: hardDrop_def)
    with assms HardDrop show False by simp
  qed
  then obtain piece where pc: "currentPiece (state v) = Some piece"
    by (auto simp: canMove_def)
  define dist where "dist = getHardDropDistance (board v) piece (currentX (state v)) (currentY (state v))"
  define u where "u = (if dist > 0 then
       emit SCORE_UPDATE (NumberData (num_add (score (state v)) (num_mul (Num dist) (Num HARD_DROP_SCORE))))
         (setState (\<lambda>t. t\<lparr>currentY := currentY (state v) + dist,
            score := num_add (score (state v)) (num_mul (Num dist) (Num HARD_DROP_SCORE)),
            isDirty := True\<rparr>) v)
     else v)"
  have "hardDrop now v = lockPiece now u"
    using cm pc by (simp add: hardDrop_def Let_def u_def dist_def)
  with assms HardDrop have lk: "lockPiece now u = Inr v'" by simp
  have u: "status (state u) = status (state v)" "currentPiece (state u) = Some piece"
    using pc by (simp_all add: u_def setState_def emit_def)
  from lockPiece_game_over_only_by_spawn [OF lk u(2)] assms(2,3) u(1)
  obtain p rest where "preview (gen u) = p # rest"
    "\<not> isValidPosition (board (lock_and_score piece u)) p SPAWN_X SPAWN_Y" by auto
  with lk u(2) HardDrop show ?thesis by blast
next
  case (Rotate d)
  have "status (state (rotate d v)) = status (state v)"
    by (cases "currentPiece (state v)")
      (auto simp: rotate_def Let_def try_kicks_find wallKickOffsets_def setState_def emit_def
        rotate_current_def split: option.splits)
  with assms Rotate show ?thesis by simp
next
  case Hold
  with assms show ?thesis
    by (auto simp: hold_def Let_def setState_def emit_def
        split: if_splits option.splits sum.splits prod.splits)
qed

text \<open>
  Claim C7. A lock draws the next piece and tests it at the spawn cell on the board as
  the lock leaves it. If the test fails, the status becomes \<open>GAME_OVER\<close>, the current
  piece is cleared and one game-over event is emitted; if it passes, the status stays,
  the new piece stands at the spawn cell, \<open>canHold\<close> is true and no game-over event
  is emitted. And whenever a public action turns a status other than \<open>GAME_OVER\<close> into
  \<open>GAME_OVER\<close>, the action is \<open>moveDown\<close>, \<open>softDrop\<close> or \<open>hardDrop\<close> and its result is
  that of a lock whose spawn test failed.
\<close>

theorem spawn_collision_only_game_over:
  "(currentPiece (state w) = Some piece \<and> preview (gen w) = nextPiece # rest \<longrightarrow>
      (\<not> isValidPosition (board (lock_and_score piece w)) nextPiece SPAWN_X SPAWN_Y \<longrightarrow>
         (\<exists>w'. lockPiece now w = Inr w' \<and> status (state w') = GAME_OVER \<and>
            currentPiece (state w') = None \<and> gameOverCount w' = gameOverCount w + 1)) \<and>
      (isValidPosition (board (lock_and_score piece w)) nextPiece SPAWN_X SPAWN_Y \<longrightarrow>
         (\<exists>w'. lockPiece now w = Inr w' \<and> status (state w') = status (state w) \<and>
            currentPiece (state w') = Some nextPiece \<and> currentX (state w') = SPAWN_X \<and>
            currentY (state w') = SPAWN_Y \<and> canHold (state w') \<and>
            gameOverCount w' = gameOverCount w))) \<and>
   (perform now a v = Inr v' \<and> status (state v') = GAME_OVER \<and> status (state v) \<noteq> GAME_OVER
      \<longrightarrow> (a = MoveDown \<or> a = SoftDrop \<or> a = HardDrop) \<and>
          (\<exists>u piece' p' rest'. currentPiece (state u) = Some piece' \<and>
             preview (gen u) = p' # rest' \<and>
             \<not> isValidPosition (board (lock_and_score piece' u)) p' SPAWN_X SPAWN_Y \<and>
             lockPiece now u = Inr v'))"
proof (intro conjI impI)
  assume h: "currentPiece (state w) = Some piece \<and> preview (gen w) = nextPiece # rest"
    and inv: "\<not> isValidPosition (board (lock_and_score piece w)) nextPiece SPAWN_X SPAWN_Y"
  from h obtain g where np: "next_piece (gen (lock_and_score piece w)) = Inr (nextPiece, g)"
    using next_piece_Cons [of "gen w" nextPiece rest] by auto
  from h have "lockPiece now w = spawnNextPiece now (lock_and_score piece w)"
    by (simp add: lockPiece_def)
  with spawn_invalid [OF np inv]
  have "lockPiece now w = Inr (gameOver ((lock_and_score piece w)\<lparr>gen := g\<rparr>))" by simp
  moreover have "gameOverCount ((lock_and_score piece w)\<lparr>gen := g\<rparr>) = gameOverCount w"
    using lock_and_score_gameOverCount [of piece w] by (simp add: gameOverCount_def)
  ultimately show "\<exists>w'. lockPiece now w = Inr w' \<and> status (state w') = GAME_OVER \<and>
            currentPiece (state w') = None \<and> gameOverCount w' = gameOverCount w + 1"
    by (simp add: gameOver_effect)
next
  assume h: "currentPiece (state w) = Some piece \<and> preview (gen w) = nextPiece # rest"
    and val: "isValidPosition (board (lock_and_score piece w)) nextPiece SPAWN_X SPAWN_Y"
  from h obtain g where np: "next_piece (gen (lock_and_score piece w)) = Inr (nextPiece, g)"
    using next_piece_Cons [of "gen w" nextPiece rest] by auto
  from h have "lockPiece now w = spawnNextPiece now (lock_and_score piece w)"
    by (simp add: lockPiece_def)
  with spawn_valid [OF np val] lock_and_score_gameOverCount [of piece w]
  show "\<exists>w'. lockPiece now w = Inr w' \<and> status (state w') = status (state w) \<and>
            currentPiece (state w') = Some nextPiece \<and> currentX (state w') = SPAWN_X \<and>
            currentY (state w') = SPAWN_Y \<and> canHold (state w') \<and>
            gameOverCount w' = gameOverCount w"
    by (simp add: setState_def emit_def gameOverCount_def)
next
  assume "perform now a v = Inr v' \<and> status (state v') = GAME_OVER
      \<and> status (state v) \<noteq> GAME_OVER"
  then show "a = MoveDown \<or> a = SoftDrop \<or> a = HardDrop"
    and "\<exists>u piece' p' rest'. currentPiece (state u) = Some piece' \<and>
             preview (gen u) = p' # rest' \<and>
             \<not> isValidPosition (board (lock_and_score piece' u)) p' SPAWN_X SPAWN_Y \<and>
             lockPiece now u = Inr v'"
    using perform_game_over [of now a v v'] by blast+
qed

lemma topped_world_facts:
  "\<not> isValidPosition (board (lock_and_score (new_Piece O_t) topped_world)) (new_Piece T_t)
        SPAWN_X SPAWN_Y \<and>
   \<not> isl (hardDrop 0 topped_world) \<and> status (state game_over_world) = GAME_OVER"
  by code_simp

theorem spawn_collision_only_game_over_witness:
  "currentPiece (state topped_world) = Some (new_Piece O_t) \<and>
   preview (gen topped_world) = [new_Piece T_t] \<and>
   \<not> isValidPosition (board (lock_and_score (new_Piece O_t) topped_world)) (new_Piece T_t)
        SPAWN_X SPAWN_Y \<and>
   (\<exists>w'. lockPiece 0 topped_world = Inr w' \<and> status (state w') = GAME_OVER \<and>
      currentPiece (state w') = None \<and> gameOverCount w' = gameOverCount topped_world + 1) \<and>
   perform 0 HardDrop topped_world = Inr game_over_world \<and>
   status (state game_over_world) = GAME_OVER \<and> status (state topped_world) \<noteq> GAME_OVER \<and>
   (\<exists>u piece' p' rest'. currentPiece (state u) = Some piece' \<and> preview (gen u) = p' # rest' \<and>
      \<not> isValidPosition (board (lock_and_score piece' u)) p' SPAWN_X SPAWN_Y \<and>
      lockPiece 0 u = Inr game_over_world)"
proof -
  have h1: "currentPiece (state topped_world) = Some (new_Piece O_t)"
    and h2: "preview (gen topped_world) = [new_Piece T_t]"
    and h3: "status (state topped_world) \<noteq> GAME_OVER"
    by (simp_all add: topped_world_def)
  have h4: "perform 0 HardDrop topped_world = Inr game_over_world"
    using topped_world_facts by (simp add: game_over_world_def)
  show ?thesis
    using h1 h2 h3 h4 topped_world_facts
      spawn_collision_only_game_over [where w = topped_world and piece = "new_Piece O_t"
        and nextPiece = "new_Piece T_t" and rest = "[]" and now = 0 and a = HardDrop
        and v = topped_world and v' = game_over_world]
    by simp
qed


section \<open>Hold\<close>

lemma shuffle_loop_gen:
  "snd (shuffle_loop n xs g) = g\<lparr>rng_calls := rng_calls g + n\<rparr>"
  by (induction n arbitrary: xs g) (simp_all add: Let_def random_def split: prod.splits)

lemma refillBag_preview [simp]: "preview (refillBag g) = preview g"
  using shuffle_loop_gen [of "length PieceType_values - 1" PieceType_values g]
  by (auto simp: refillBag_def shuffleArray_def split: prod.splits)

lemma generatePiece_preview [simp]: "preview (snd (generatePiece g)) = preview g"
  by (simp add: generatePiece_def Let_def)

lemma fill_preview_length: "length (preview (fill_preview n g)) = length (preview g) + n"
proof (induction n arbitrary: g)
  case 0
  then show ?case by simp
next
  case (Suc n)
  obtain p g' where gp: "generatePiece g = (p, g')" by (cases "generatePiece g")
  then have "preview g' = preview g" using generatePiece_preview [of g] by simp
  with gp Suc show ?case by simp
qed

lemma reset_preview: "previewCount g \<noteq> 0 \<Longrightarrow> preview (reset g) \<noteq> []"
  using fill_preview_length [of "previewCount g" "g\<lparr>bag := [], preview := []\<rparr>"]
  by (auto simp: reset_def)












lemma started_world_facts:
  "status (state started_world) = PLAYING \<and>
   currentPiece (state started_world) = Some (new_Piece I_t) \<and>
   canHold (state started_world) \<and> holdPiece (state started_world) = None \<and>
   preview (gen started_world) = [new_Piece L_t]"
  by code_simp



section \<open>The piece supply: seven-bag draws\<close>

lemma random_index:
  fixes r :: rat
  assumes "0 \<le> r" "r < 1"
  shows "nat \<lfloor>r * of_nat (Suc n)\<rfloor> \<le> n"
proof -
  have "r * of_nat (Suc n) < of_nat (Suc n)"
    using assms by (simp add: mult_less_cancel_right2 del: of_nat_Suc)
  then have "\<lfloor>r * of_nat (Suc n)\<rfloor> < int (Suc n)"
    by (simp add: floor_less_iff del: of_nat_Suc)
  then show ?thesis by simp
qed

lemma shuffle_loop_mset:
  assumes "unit_range (rng g)" and "n < length xs"
  shows "mset (fst (shuffle_loop n xs g)) = mset xs"
  using assms
proof (induction n arbitrary: xs g)
  case 0
  then show ?case by simp
next
  case (Suc n)
  define j where "j = nat \<lfloor>rng g (rng_calls g) * of_nat (Suc n + 1)\<rfloor>"
  define ys where "ys = xs[Suc n := xs ! j, j := xs ! Suc n]"
  define g' where "g' = g\<lparr>rng_calls := rng_calls g + 1\<rparr>"
  from Suc.prems(1) have "0 \<le> rng g (rng_calls g)" "rng g (rng_calls g) < 1"
    by (simp_all add: unit_range_def)
  then have "j \<le> Suc n" unfolding j_def using random_index [of _ "Suc n"] by simp
  with Suc.prems(2) have j: "j < length xs" by simp
  have "mset ys = mset xs"
    unfolding ys_def using mset_swap [OF j Suc.prems(2)] by simp
  moreover have "mset (fst (shuffle_loop n ys g')) = mset ys"
    using Suc.prems by (intro Suc.IH) (simp_all add: g'_def ys_def)
  moreover have "shuffle_loop (Suc n) xs g = shuffle_loop n ys g'"
    by (simp add: Let_def random_def j_def ys_def g'_def)
  ultimately show ?case by simp
qed

lemma length_PieceType_values: "length PieceType_values = 7"
  by (simp add: PieceType_values_def)

lemma refillBag_eq:
  "refillBag g = g\<lparr>rng_calls := rng_calls g + (length PieceType_values - 1),
     bag := fst (shuffle_loop (length PieceType_values - 1) PieceType_values g)\<rparr>"
  using shuffle_loop_gen [of "length PieceType_values - 1" PieceType_values g]
  by (cases "shuffle_loop (length PieceType_values - 1) PieceType_values g")
    (simp add: refillBag_def shuffleArray_def)

lemma refillBag_bag:
  assumes "unit_range (rng g)"
  shows "mset (bag (refillBag g)) = mset PieceType_values"
  using shuffle_loop_mset [OF assms, of "length PieceType_values - 1" PieceType_values]
  by (simp add: refillBag_eq length_PieceType_values)

text \<open>\<open>bag.pop()\<close> in \<open>generatePiece\<close> always finds an entry, whatever \<open>Math.random()\<close> returns.\<close>

lemma shuffle_loop_length: "length (fst (shuffle_loop n xs g)) = length xs"
  by (induction n arbitrary: xs g) (simp_all add: Let_def random_def split: prod.splits)

lemma generatePiece_pop_defined:
  "bag (if length (bag g) = 0 then refillBag g else g) \<noteq> []"
  using shuffle_loop_length [of "length PieceType_values - 1" PieceType_values g]
  by (auto simp: refillBag_eq length_PieceType_values)

lemma generatePiece_refill:
  assumes "bag g = []" and "unit_range (rng g)"
  shows "generatePiece g = generatePiece (refillBag g)"
proof -
  from refillBag_bag [OF assms(2)] have "length (bag (refillBag g)) = length PieceType_values"
    by (rule mset_eq_length)
  then have "bag (refillBag g) \<noteq> []"
    by (auto simp: length_PieceType_values)
  with assms(1) show ?thesis by (simp add: generatePiece_def)
qed

lemma draws_bag:
  "draws (length ys) (g\<lparr>bag := xs @ ys\<rparr>) = (map new_Piece (rev ys), g\<lparr>bag := xs\<rparr>)"
proof (induction ys arbitrary: g rule: rev_induct)
  case Nil
  then show ?case by simp
next
  case (snoc z zs)
  have "generatePiece (g\<lparr>bag := xs @ zs @ [z]\<rparr>) = (new_Piece z, g\<lparr>bag := xs @ zs\<rparr>)"
    by (simp add: generatePiece_def butlast_append flip: append_assoc)
  with snoc show ?case by simp
qed

lemma draws_window:
  assumes "bag g = []" and "unit_range (rng g)"
  shows "\<exists>ps g'. draws 7 g = (ps, g') \<and> mset (map ptype ps) = mset PieceType_values \<and>
           bag g' = [] \<and> rng g' = rng g"
proof -
  define h where "h = refillBag g"
  have len: "length (bag h) = 7"
    using refillBag_bag [OF assms(2)] mset_eq_length [of "bag h" PieceType_values]
    by (simp add: h_def length_PieceType_values)
  have "draws 7 g = draws 7 h"
    using generatePiece_refill [OF assms] by (simp add: numeral_eq_Suc h_def)
  also have "\<dots> = draws (length (bag h)) (h\<lparr>bag := [] @ bag h\<rparr>)"
    using len by simp
  also have "\<dots> = (map new_Piece (rev (bag h)), h\<lparr>bag := []\<rparr>)"
    by (rule draws_bag)
  finally have d: "draws 7 g = (map new_Piece (rev (bag h)), h\<lparr>bag := []\<rparr>)" .
  have "map ptype (map new_Piece (rev (bag h))) = rev (bag h)"
    by (simp add: new_Piece_def comp_def)
  then have "mset (map ptype (map new_Piece (rev (bag h)))) = mset (rev (bag h))"
    by (simp only:)
  also have "\<dots> = mset PieceType_values"
    using refillBag_bag [OF assms(2)] by (simp add: h_def)
  finally have m: "mset (map ptype (map new_Piece (rev (bag h)))) = mset PieceType_values" .
  have r: "rng (h\<lparr>bag := []\<rparr>) = rng g" by (simp add: h_def refillBag_eq)
  have e: "bag (h\<lparr>bag := []\<rparr>) = []" by simp
  from d m r e show ?thesis by blast
qed

lemma draws_add:
  "draws (a + b) g =
     (let (ps, g') = draws a g; (qs, g'') = draws b g' in (ps @ qs, g''))"
  by (induction a arbitrary: g) (simp_all add: Let_def split: prod.splits)

lemma draws_length_aux: "draws n g = (ps, g') \<Longrightarrow> length ps = n"
  by (induction n arbitrary: g ps g') (auto simp: Let_def split: prod.splits)

lemma draws_length: "length (fst (draws n g)) = n"
  using draws_length_aux [of n g] by (cases "draws n g") simp

lemma draws_aligned:
  assumes "bag g = []" and "unit_range (rng g)"
  shows "bag (snd (draws (7 * m) g)) = [] \<and> rng (snd (draws (7 * m) g)) = rng g"
proof (induction m)
  case 0
  with assms show ?case by simp
next
  case (Suc m)
  obtain ps g' where a: "draws (7 * m) g = (ps, g')" by (cases "draws (7 * m) g")
  with Suc have g': "bag g' = []" "unit_range (rng g')" using assms(2) by simp_all
  from draws_window [OF g'] obtain qs g'' where
    b: "draws 7 g' = (qs, g'')" "bag g'' = []" "rng g'' = rng g'" by blast
  have "7 * Suc m = 7 * m + 7" by simp
  then have "draws (7 * Suc m) g = (ps @ qs, g'')"
    using a b(1) by (simp add: draws_add del: mult_Suc_right)
  with b g' a Suc show ?case by simp
qed

text \<open>
  Claim C9. Whatever \<open>Math.random()\<close> returns within [0, 1), from a generator whose bag
  is empty (a refill is due) the bag is empty again after every 7 draws, and the
  draws 7m+1 to 7m+7 contain each of the seven kinds exactly once, for every \<open>m\<close>.
\<close>

theorem seven_bag_window:
  assumes "\<forall>k. 0 \<le> rng g k \<and> rng g k < 1" and "bag g = []"
  shows "bag (snd (draws (7 * m) g)) = [] \<and>
         mset (map ptype (take 7 (drop (7 * m) (fst (draws (7 * m + 7) g)))))
           = mset PieceType_values \<and>
         count_list (map ptype (take 7 (drop (7 * m) (fst (draws (7 * m + 7) g))))) t = 1"
proof -
  from assms(1) have ur: "unit_range (rng g)" by (simp add: unit_range_def)
  obtain ps g' where a: "draws (7 * m) g = (ps, g')" by (cases "draws (7 * m) g")
  with draws_aligned [OF assms(2) ur, of m] have g': "bag g' = []" "unit_range (rng g')"
    using ur by simp_all
  from draws_window [OF g'] obtain qs g'' where
    b: "draws 7 g' = (qs, g'')" "mset (map ptype qs) = mset PieceType_values" by blast
  have "length ps = 7 * m" using draws_length [of "7 * m" g] a by simp
  moreover have "length qs = 7" using draws_length [of 7 g'] b(1) by simp
  moreover have "fst (draws (7 * m + 7) g) = ps @ qs"
    using a b(1) by (simp add: draws_add)
  ultimately have w: "take 7 (drop (7 * m) (fst (draws (7 * m + 7) g))) = qs" by simp
  have "count (mset (map ptype qs)) t = 1"
    unfolding b(2) by (cases t) (simp_all add: PieceType_values_def)
  moreover have "count_list (map ptype qs) t = count (mset (map ptype qs)) t"
    by (simp only: count_mset)
  ultimately have "count_list (map ptype qs) t = 1" by (simp only:)
  with w b(2) a g'(1) show ?thesis by simp
qed


theorem seven_bag_window_witness:
  "(\<forall>k. 0 \<le> rng empty_bag_generator k \<and> rng empty_bag_generator k < 1) \<and>
   bag empty_bag_generator = [] \<and>
   mset (map ptype (take 7 (drop (7 * 1) (fst (draws (7 * 1 + 7) empty_bag_generator)))))
     = mset PieceType_values \<and>
   count_list (map ptype (take 7 (drop (7 * 1) (fst (draws (7 * 1 + 7) empty_bag_generator))))) T_t = 1"
proof -
  have h1: "\<forall>k. 0 \<le> rng empty_bag_generator k \<and> rng empty_bag_generator k < 1"
    by (simp add: empty_bag_generator_def zero_rng_def)
  have h2: "bag empty_bag_generator = []"
    by (simp add: empty_bag_generator_def)
  show ?thesis
    using h1 h2 seven_bag_window [OF h1 h2, of 1 T_t] by blast
qed


section \<open>Status transitions\<close>

lemma progress_paused_world_facts:
  "status (state progress_paused_world) = PAUSED \<and>
   score (state progress_paused_world) = Num 35 \<and>
   previewCount (gen progress_paused_world) = 1 \<and>
   \<not> isl (startGame 9 progress_paused_world) \<and>
   status (state (projr (startGame 9 progress_paused_world))) = PLAYING \<and>
   score (state (projr (startGame 9 progress_paused_world))) = Num 0"
  by code_simp

text \<open>
  Claim C4 as stated fails: in the paused game \<open>progress_paused_world\<close> (score 35),
  \<open>startGame\<close> does not return the world as it was; the status becomes \<open>PLAYING\<close> and
  the score 0.
\<close>

theorem startGame_while_paused_restarts:
  "status (state progress_paused_world) = PAUSED \<and>
   score (state progress_paused_world) = Num 35 \<and>
   startGame 9 progress_paused_world \<noteq> Inr progress_paused_world \<and>
   status (state (projr (startGame 9 progress_paused_world))) = PLAYING \<and>
   score (state (projr (startGame 9 progress_paused_world))) = Num 0"
proof -
  have "startGame 9 progress_paused_world \<noteq> Inr progress_paused_world"
  proof
    assume "startGame 9 progress_paused_world = Inr progress_paused_world"
    then have "projr (startGame 9 progress_paused_world) = progress_paused_world" by simp
    moreover have "status (state (projr (startGame 9 progress_paused_world))) = PLAYING"
      and "status (state progress_paused_world) = PAUSED"
      using progress_paused_world_facts by blast+
    ultimately show False by simp
  qed
  with progress_paused_world_facts show ?thesis by simp
qed


lemma spawnNextPiece_status:
  assumes "spawnNextPiece now u = Inr v'"
  shows "status (state v') = status (state u) \<or> status (state v') = GAME_OVER"
  using assms
  by (auto simp: spawnNextPiece_def gameOver_def setState_def emit_def Let_def
      split: sum.splits prod.splits if_splits)

lemma lockPiece_status:
  assumes "lockPiece now u = Inr v'"
  shows "status (state v') = status (state u) \<or> status (state v') = GAME_OVER"
proof (cases "currentPiece (state u)")
  case None
  with assms show ?thesis by (simp add: lockPiece_def)
next
  case (Some piece)
  with assms have "spawnNextPiece now (lock_and_score piece u) = Inr v'"
    by (simp add: lockPiece_def)
  from spawnNextPiece_status [OF this] show ?thesis by simp
qed

lemma moveDown_status:
  assumes "moveDown now w = Inr (moved, w')"
  shows "status (state w') = status (state w) \<or>
         (status (state w) = PLAYING \<and> status (state w') = GAME_OVER)"
proof (cases "canMove (state w)")
  case False
  with assms show ?thesis by (simp add: moveDown_def)
next
  case True
  then obtain piece where pc: "currentPiece (state w) = Some piece"
    and pl: "status (state w) = PLAYING" by (auto simp: canMove_def)
  show ?thesis
  proof (cases "isValidPosition (board w) piece (currentX (state w)) (currentY (state w) + 1)")
    case True
    with assms pc pl show ?thesis
      by (auto simp: moveDown_def canMove_def Let_def setState_def emit_def)
  next
    case False
    with assms pc pl have "lockPiece now w = Inr w'"
      by (auto simp: moveDown_def canMove_def Let_def split: sum.splits)
    from lockPiece_status [OF this] pl show ?thesis by auto
  qed
qed

lemma softDrop_status:
  assumes "softDrop now w = Inr w'"
  shows "status (state w') = status (state w) \<or>
         (status (state w) = PLAYING \<and> status (state w') = GAME_OVER)"
proof (cases "canMove (state w)")
  case False
  with assms show ?thesis by (simp add: softDrop_def)
next
  case True
  with assms obtain moved w1 where md: "moveDown now w = Inr (moved, w1)"
    and w': "w' = (if moved then emit SCORE_UPDATE
          (NumberData (num_add (score (state w)) (Num SOFT_DROP_SCORE)))
          (setState (\<lambda>t. t\<lparr>score := num_add (score (state w)) (Num SOFT_DROP_SCORE)\<rparr>) w1)
        else w1)"
    by (auto simp: softDrop_def Let_def split: sum.splits prod.splits if_splits)
  from w' have "status (state w') = status (state w1)"
    by (simp add: setState_def emit_def)
  with moveDown_status [OF md] show ?thesis by simp
qed

lemma hardDrop_status:
  assumes "hardDrop now w = Inr w'"
  shows "status (state w') = status (state w) \<or>
         (status (state w) = PLAYING \<and> status (state w') = GAME_OVER)"
proof (cases "canMove (state w)")
  case False
  with assms show ?thesis by (simp add: hardDrop_def)
next
  case True
  then obtain piece where pc: "currentPiece (state w) = Some piece"
    and pl: "status (state w) = PLAYING" by (auto simp: canMove_def)
  define dist where "dist = getHardDropDistance (board w) piece (currentX (state w)) (currentY (state w))"
  define u where "u = (if dist > 0 then
       emit SCORE_UPDATE (NumberData (num_add (score (state w)) (num_mul (Num dist) (Num HARD_DROP_SCORE))))
         (setState (\<lambda>t. t\<lparr>currentY := currentY (state w) + dist,
            score := num_add (score (state w)) (num_mul (Num dist) (Num HARD_DROP_SCORE)),
            isDirty := True\<rparr>) w)
     else w)"
  have "hardDrop now w = lockPiece now u"
    using True pc by (simp add: hardDrop_def Let_def u_def dist_def)
  with assms have "lockPiece now u = Inr w'" by simp
  moreover have "status (state u) = status (state w)"
    by (simp add: u_def setState_def emit_def)
  ultimately show ?thesis using lockPiece_status [of now u w'] pl by auto
qed

lemma rotate_status: "status (state (rotate d w)) = status (state w)"
  by (cases "currentPiece (state w)")
    (auto simp: rotate_def Let_def try_kicks_find wallKickOffsets_def setState_def emit_def
      rotate_current_def split: option.splits)

lemma startGame_status:
  assumes "startGame now w = Inr w'"
  shows "status (state w') = PLAYING"
proof (cases "status (state w) = PLAYING")
  case True
  with assms show ?thesis by (simp add: startGame_def)
next
  case False
  with assms show ?thesis
    by (simp add: startGame_def Let_def split: sum.splits prod.splits)
      (auto simp: setState_def emit_def)
qed

lemma hold_status:
  assumes "hold w = Inr w'"
  shows "status (state w') = status (state w)"
proof (cases "canMove (state w) \<and> canHold (state w)")
  case False
  then have "hold w = Inr w" by (auto simp: hold_def)
  with assms show ?thesis by simp
next
  case True
  then obtain cur where cur: "currentPiece (state w) = Some cur" by (auto simp: canMove_def)
  show ?thesis
  proof (cases "holdPiece (state w)")
    case (Some held)
    with True cur have "hold w = Inr (emit HOLD_PIECE NoData
        (setState (\<lambda>t. t\<lparr>currentPiece := Some (new_Piece (ptype held)),
           currentX := SPAWN_X, currentY := SPAWN_Y,
           holdPiece := Some (new_Piece (ptype cur)), canHold := False,
           isDirty := True\<rparr>) w))"
      by (simp add: hold_def)
    with assms show ?thesis by (auto simp: setState_def emit_def)
  next
    case None
    show ?thesis
    proof (cases "next_piece (gen w)")
      case (Inl f)
      with True cur None have "hold w = Inl f" by (simp add: hold_def)
      with assms show ?thesis by simp
    next
      case (Inr pg)
      obtain p g where pg: "pg = (p, g)" by (cases pg)
      with Inr True cur None have "hold w = Inr (emit HOLD_PIECE NoData
          (setState (\<lambda>t. t\<lparr>currentPiece := Some p, currentX := SPAWN_X,
             currentY := SPAWN_Y, holdPiece := Some (new_Piece (ptype cur)),
             canHold := False, nextPieces := getPreview g, isDirty := True\<rparr>)
             (w\<lparr>gen := g\<rparr>)))"
        by (simp add: hold_def Let_def)
      with assms show ?thesis by (auto simp: setState_def emit_def)
    qed
  qed
qed

lemma move_status:
  "status (state (moveLeft w)) = status (state w)"
  "status (state (moveRight w)) = status (state w)"
  by (auto simp: moveLeft_def moveRight_def Let_def setState_def emit_def split: option.splits)

lemma pause_resume_status:
  "status (state (pause w)) = status (state w) \<or>
     (status (state w) = PLAYING \<and> status (state (pause w)) = PAUSED)"
  "status (state (resume now w)) = status (state w) \<or>
     (status (state w) = PAUSED \<and> status (state (resume now w)) = PLAYING)"
  by (auto simp: pause_def resume_def Let_def setState_def emit_def)

lemma perform_status_cases:
  assumes "perform now a w = Inr w'"
  shows "status (state w') = status (state w) \<or> status (state w') = PLAYING \<or>
     (status (state w) = PLAYING \<and> status (state w') = PAUSED) \<or>
     (status (state w) = PLAYING \<and> status (state w') = GAME_OVER)"
proof (cases a)
  case StartGame
  with assms have "startGame now w = Inr w'" by simp
  then show ?thesis using startGame_status by blast
next
  case Pause
  with assms have "w' = pause w" by simp
  then show ?thesis using pause_resume_status(1) [of w] by blast
next
  case Resume
  with assms have "w' = resume now w" by simp
  then show ?thesis using pause_resume_status(2) [of now w] by blast
next
  case MoveLeft
  with assms have "w' = moveLeft w" by simp
  then show ?thesis using move_status(1) [of w] by blast
next
  case MoveRight
  with assms have "w' = moveRight w" by simp
  then show ?thesis using move_status(2) [of w] by blast
next
  case MoveDown
  show ?thesis
  proof (cases "moveDown now w")
    case (Inl f)
    with assms MoveDown show ?thesis by simp
  next
    case (Inr mw)
    obtain moved w1 where mw: "mw = (moved, w1)" by (cases mw)
    from Inr mw assms MoveDown have "w1 = w'" by simp
    with Inr mw have "moveDown now w = Inr (moved, w')" by simp
    from moveDown_status [OF this] show ?thesis by blast
  qed
next
  case SoftDrop
  with assms have "softDrop now w = Inr w'" by simp
  from softDrop_status [OF this] show ?thesis by blast
next
  case HardDrop
  with assms have "hardDrop now w = Inr w'" by simp
  from hardDrop_status [OF this] show ?thesis by blast
next
  case (Rotate d)
  with assms have "w' = rotate d w" by simp
  then show ?thesis using rotate_status [of d w] by blast
next
  case Hold
  with assms have "hold w = Inr w'" by simp
  from hold_status [OF this] show ?thesis by blast
qed

lemma perform_status_table:
  assumes "perform now a w = Inr w'"
  shows "status (state w') = status (state w) \<or>
     (status (state w), status (state w')) \<in>
       {(MENU, PLAYING), (PLAYING, PAUSED), (PAUSED, PLAYING), (PLAYING, GAME_OVER),
        (GAME_OVER, PLAYING)}"
  using perform_status_cases [OF assms]
  by (cases "status (state w)"; cases "status (state w')"; simp)

lemma startGame_reinitialises:
  assumes "status (state w) \<noteq> PLAYING" and "previewCount (gen w) \<noteq> 0"
  shows "\<exists>w'. startGame now w = Inr w' \<and> status (state w') = PLAYING \<and>
     currentPiece (state w') \<noteq> None \<and> currentX (state w') = SPAWN_X \<and>
     currentY (state w') = SPAWN_Y \<and> holdPiece (state w') = None \<and> canHold (state w') \<and>
     score (state w') = Num 0 \<and> lines (state w') = 0 \<and> level (state w') = 1 \<and>
     dropInterval (state w') = INITIAL_DROP_INTERVAL \<and> board w' = clear_board (board w) \<and>
     grid (board w') = replicate (length (grid (board w))) 0 \<and>
     width (board w') = width (board w) \<and> height (board w') = height (board w)"
proof -
  from reset_preview [OF assms(2)] obtain p rest where "preview (reset (gen w)) = p # rest"
    by (cases "preview (reset (gen w))") auto
  then obtain g where "next_piece (reset (gen w)) = Inr (p, g)"
    using next_piece_Cons by blast
  with assms(1) show ?thesis
    by (simp add: startGame_def Let_def setState_def emit_def clear_board_def
        map_replicate_const)
qed

text \<open>
  Claim C4, amended. Each status transition belongs to its actions. \<open>startGame\<close>
  changes nothing exactly while the status is \<open>PLAYING\<close>; from every other status,
  \<open>PAUSED\<close> included, it returns a reinitialised game in status \<open>PLAYING\<close>: a first piece
  at the spawn cell, nothing held, score 0, no lines, level 1, the initial gravity
  interval, every cell of the board 0. \<open>pause\<close> takes \<open>PLAYING\<close> to \<open>PAUSED\<close> (one state
  replacement that also sets the dirty flag, one event) and changes nothing outside
  \<open>PLAYING\<close>; \<open>resume\<close> takes \<open>PAUSED\<close> to \<open>PLAYING\<close> (also recording the time) and
  changes nothing outside \<open>PAUSED\<close>. \<open>moveLeft\<close>, \<open>moveRight\<close>, \<open>rotate\<close> and \<open>hold\<close>
  keep the status; \<open>moveDown\<close>, \<open>softDrop\<close> and \<open>hardDrop\<close> keep it or take \<open>PLAYING\<close> to
  \<open>GAME_OVER\<close>. So every public action keeps the status or takes one of the
  transitions MENU to PLAYING, PLAYING to PAUSED, PAUSED to PLAYING, PLAYING to
  GAME_OVER, GAME_OVER to PLAYING.
\<close>

theorem startGame_restarts_unless_playing:
  "(status (state w) = PLAYING \<longrightarrow> startGame now w = Inr w) \<and>
   (status (state w) \<noteq> PLAYING \<and> previewCount (gen w) \<noteq> 0 \<longrightarrow>
      (\<exists>w'. startGame now w = Inr w' \<and> status (state w') = PLAYING \<and>
         currentPiece (state w') \<noteq> None \<and> currentX (state w') = SPAWN_X \<and>
         currentY (state w') = SPAWN_Y \<and> holdPiece (state w') = None \<and> canHold (state w') \<and>
         score (state w') = Num 0 \<and> lines (state w') = 0 \<and> level (state w') = 1 \<and>
         dropInterval (state w') = INITIAL_DROP_INTERVAL \<and>
         board w' = clear_board (board w) \<and>
         grid (board w') = replicate (length (grid (board w))) 0 \<and>
         width (board w') = width (board w) \<and> height (board w') = height (board w))) \<and>
   (status (state w) \<noteq> PLAYING \<longrightarrow> pause w = w) \<and>
   (status (state w) \<noteq> PAUSED \<longrightarrow> resume now w = w) \<and>
   (perform now a w = Inr v \<longrightarrow>
      status (state v) = status (state w) \<or>
      (status (state w), status (state v)) \<in>
        {(MENU, PLAYING), (PLAYING, PAUSED), (PAUSED, PLAYING), (PLAYING, GAME_OVER),
         (GAME_OVER, PLAYING)}) \<and>
   (status (state w) = PLAYING \<longrightarrow>
      pause w = w\<lparr>state := (state w)\<lparr>status := PAUSED, isDirty := True\<rparr>,
                  emitted := emitted w @ [(GAME_PAUSE, NoData)],
                  setStateCalls := setStateCalls w + 1\<rparr>) \<and>
   (status (state w) = PAUSED \<longrightarrow>
      resume now w = w\<lparr>state := (state w)\<lparr>status := PLAYING, lastDropTime := now,
                                           isDirty := True\<rparr>,
                       emitted := emitted w @ [(GAME_RESUME, NoData)],
                       setStateCalls := setStateCalls w + 1\<rparr>) \<and>
   status (state (moveLeft w)) = status (state w) \<and>
   status (state (moveRight w)) = status (state w) \<and>
   status (state (rotate d w)) = status (state w) \<and>
   (hold w = Inr v1 \<longrightarrow> status (state v1) = status (state w)) \<and>
   (moveDown now w = Inr (m, v2) \<longrightarrow>
      status (state v2) = status (state w) \<or>
      (status (state w) = PLAYING \<and> status (state v2) = GAME_OVER)) \<and>
   (softDrop now w = Inr v3 \<longrightarrow>
      status (state v3) = status (state w) \<or>
      (status (state w) = PLAYING \<and> status (state v3) = GAME_OVER)) \<and>
   (hardDrop now w = Inr v4 \<longrightarrow>
      status (state v4) = status (state w) \<or>
      (status (state w) = PLAYING \<and> status (state v4) = GAME_OVER))"
proof (intro conjI impI)
  assume "status (state w) = PLAYING"
  then show "startGame now w = Inr w" by (simp add: startGame_def)
next
  assume "status (state w) \<noteq> PLAYING \<and> previewCount (gen w) \<noteq> 0"
  then show "\<exists>w'. startGame now w = Inr w' \<and> status (state w') = PLAYING \<and>
         currentPiece (state w') \<noteq> None \<and> currentX (state w') = SPAWN_X \<and>
         currentY (state w') = SPAWN_Y \<and> holdPiece (state w') = None \<and> canHold (state w') \<and>
         score (state w') = Num 0 \<and> lines (state w') = 0 \<and> level (state w') = 1 \<and>
         dropInterval (state w') = INITIAL_DROP_INTERVAL \<and>
         board w' = clear_board (board w) \<and>
         grid (board w') = replicate (length (grid (board w))) 0 \<and>
         width (board w') = width (board w) \<and> height (board w') = height (board w)"
    using startGame_reinitialises [of w now] by blast
next
  assume "status (state w) \<noteq> PLAYING"
  then show "pause w = w" by (simp add: pause_def)
next
  assume "status (state w) \<noteq> PAUSED"
  then show "resume now w = w" by (simp add: resume_def)
next
  assume "perform now a w = Inr v"
  then show "status (state v) = status (state w) \<or>
      (status (state w), status (state v)) \<in>
        {(MENU, PLAYING), (PLAYING, PAUSED), (PAUSED, PLAYING), (PLAYING, GAME_OVER),
         (GAME_OVER, PLAYING)}"
    by (rule perform_status_table)
next
  assume "status (state w) = PLAYING"
  then show "pause w = w\<lparr>state := (state w)\<lparr>status := PAUSED, isDirty := True\<rparr>,
                  emitted := emitted w @ [(GAME_PAUSE, NoData)],
                  setStateCalls := setStateCalls w + 1\<rparr>"
    by (simp add: pause_def setState_def emit_def)
next
  assume "status (state w) = PAUSED"
  then show "resume now w = w\<lparr>state := (state w)\<lparr>status := PLAYING, lastDropTime := now,
                                           isDirty := True\<rparr>,
                       emitted := emitted w @ [(GAME_RESUME, NoData)],
                       setStateCalls := setStateCalls w + 1\<rparr>"
    by (simp add: resume_def setState_def emit_def)
next
  show "status (state (moveLeft w)) = status (state w)"
    and "status (state (moveRight w)) = status (state w)"
    by (rule move_status)+
next
  show "status (state (rotate d w)) = status (state w)" by (rule rotate_status)
next
  assume "hold w = Inr v1"
  then show "status (state v1) = status (state w)" by (rule hold_status)
next
  assume "moveDown now w = Inr (m, v2)"
  then show "status (state v2) = status (state w) \<or>
      (status (state w) = PLAYING \<and> status (state v2) = GAME_OVER)"
    by (rule moveDown_status)
next
  assume "softDrop now w = Inr v3"
  then show "status (state v3) = status (state w) \<or>
      (status (state w) = PLAYING \<and> status (state v3) = GAME_OVER)"
    by (rule softDrop_status)
next
  assume "hardDrop now w = Inr v4"
  then show "status (state v4) = status (state w) \<or>
      (status (state w) = PLAYING \<and> status (state v4) = GAME_OVER)"
    by (rule hardDrop_status)
qed

theorem startGame_restarts_unless_playing_witness:
  "status (state progress_paused_world) \<noteq> PLAYING \<and>
   previewCount (gen progress_paused_world) \<noteq> 0 \<and>
   (\<exists>w'. startGame 9 progress_paused_world = Inr w' \<and> status (state w') = PLAYING \<and>
      score (state w') = Num 0 \<and> lines (state w') = 0 \<and> level (state w') = 1 \<and>
      board w' = clear_board (board progress_paused_world)) \<and>
   status (state progress_paused_world) = PAUSED \<and>
   status (state (resume 9 progress_paused_world)) = PLAYING \<and>
   pause progress_paused_world = progress_paused_world \<and>
   status (state started_world) = PLAYING \<and>
   status (state (pause started_world)) = PAUSED \<and>
   startGame 9 started_world = Inr started_world"
proof -
  have h: "status (state progress_paused_world) \<noteq> PLAYING"
    "previewCount (gen progress_paused_world) \<noteq> 0"
    "status (state progress_paused_world) = PAUSED"
    using progress_paused_world_facts by simp_all
  have p: "status (state started_world) = PLAYING"
    using started_world_facts by simp
  note t1 = startGame_restarts_unless_playing [of progress_paused_world 9]
  note t2 = startGame_restarts_unless_playing [of started_world 9]
  have a: "\<exists>w'. startGame 9 progress_paused_world = Inr w' \<and> status (state w') = PLAYING \<and>
      score (state w') = Num 0 \<and> lines (state w') = 0 \<and> level (state w') = 1 \<and>
      board w' = clear_board (board progress_paused_world)"
    using h t1 by blast
  have "resume 9 progress_paused_world
      = progress_paused_world\<lparr>state := (state progress_paused_world)\<lparr>status := PLAYING,
            lastDropTime := 9, isDirty := True\<rparr>,
          emitted := emitted progress_paused_world @ [(GAME_RESUME, NoData)],
          setStateCalls := setStateCalls progress_paused_world + 1\<rparr>"
    using h(3) t1 by blast
  then have b: "status (state (resume 9 progress_paused_world)) = PLAYING" by simp
  have c: "pause progress_paused_world = progress_paused_world" using h(1) t1 by blast
  have "pause started_world
      = started_world\<lparr>state := (state started_world)\<lparr>status := PAUSED, isDirty := True\<rparr>,
          emitted := emitted started_world @ [(GAME_PAUSE, NoData)],
          setStateCalls := setStateCalls started_world + 1\<rparr>"
    using p t2 by blast
  then have d: "status (state (pause started_world)) = PAUSED" by simp
  have e: "startGame 9 started_world = Inr started_world" using p t2 by blast
  from h a b c p d e show ?thesis by blast
qed

section \<open>The collision invariant and hold\<close>

text \<open>
  Claim C2, at the run \<open>stack_run\<close> from the controller's initial world: after it the
  current piece (an O piece at the spawn cell) is at a valid position; \<open>hold\<close> then
  draws a T piece and puts it at the spawn cell (4, 0) without testing the position,
  where its cell (4, 2) is occupied on the board: the current piece overlaps a locked
  cell in a reachable \<open>PLAYING\<close> state.
\<close>

theorem hold_breaks_collision_invariant:
  "map_sum id current_position_valid (run stack_run (initial_world stack_rng 0)) = Inr True \<and>
   map_sum id (status \<circ> state) (run (stack_run @ [(0, Hold)]) (initial_world stack_rng 0))
     = Inr PLAYING \<and>
   map_sum id (currentPiece \<circ> state) (run (stack_run @ [(0, Hold)]) (initial_world stack_rng 0))
     = Inr (Some (new_Piece T_t)) \<and>
   map_sum id current_position_valid
     (run (stack_run @ [(0, Hold)]) (initial_world stack_rng 0)) = Inr False"
  by code_simp

end
